theory Spec2Isabelle
  imports Main "HOL-Library.Sublist"
begin

section \<open>Python values, strings and errors\<close>

text \<open>
  Python strings are modelled as \<^typ>\<open>string\<close>; a \<^typ>\<open>char\<close> stands for a code point
  below 256. Python integers are \<^typ>\<open>int\<close>. Every exception the modelled code can raise is
  a value of \<open>error\<close>, and a function that can raise returns \<open>error + 'a\<close>.
\<close>

datatype error =
    KeyError
  | ValueError string
  | TemplateError string
  | TypeError
  | AttributeError
  | ModelError string

definition bind_err :: "error + 'a \<Rightarrow> ('a \<Rightarrow> error + 'b) \<Rightarrow> error + 'b" where
  "bind_err m f = (case m of Inl e \<Rightarrow> Inl e | Inr x \<Rightarrow> f x)"

text \<open>Evaluating a generator or comprehension whose body can raise: the first failure wins.\<close>

fun map_err :: "('a \<Rightarrow> error + 'b) \<Rightarrow> 'a list \<Rightarrow> error + 'b list" where
  "map_err f [] = Inr []"
| "map_err f (x # xs) =
     (case f x of
        Inl e \<Rightarrow> Inl e
      | Inr y \<Rightarrow> (case map_err f xs of Inl e \<Rightarrow> Inl e | Inr ys \<Rightarrow> Inr (y # ys)))"

definition NL :: string where
  "NL = [CHR 0x0A]"

text \<open>\<open>s[:i]\<close> and \<open>s[i:]\<close>, with Python's reading of a negative bound.\<close>

definition py_slice_to :: "'a list \<Rightarrow> int \<Rightarrow> 'a list" where
  "py_slice_to s i = (if 0 \<le> i then take (nat i) s else take (nat (int (length s) + i)) s)"

definition py_slice_from :: "'a list \<Rightarrow> int \<Rightarrow> 'a list" where
  "py_slice_from s i = (if 0 \<le> i then drop (nat i) s else drop (nat (int (length s) + i)) s)"

text \<open>\<open>s.replace(old, new)\<close>: every non-overlapping occurrence, leftmost first.\<close>

function py_replace :: "string \<Rightarrow> string \<Rightarrow> string \<Rightarrow> string" where
  "py_replace s old new =
     (if old = [] then new @ concat (map (\<lambda>c. c # new) s)
      else if s = [] then []
      else if take (length old) s = old then new @ py_replace (drop (length old) s) old new
      else hd s # py_replace (tl s) old new)"
  by pat_completeness auto
termination
  by (relation "measure (\<lambda>(s, old, new). length s)") auto

declare py_replace.simps [simp del]

text \<open>The first occurrence of \<open>sub\<close> in a string: what precedes it and what follows it.\<close>

fun find_sub :: "string \<Rightarrow> string \<Rightarrow> (string \<times> string) option" where
  "find_sub sub [] = (if sub = [] then Some ([], []) else None)"
| "find_sub sub (c # cs) =
     (if take (length sub) (c # cs) = sub then Some ([], drop (length sub) (c # cs))
      else (case find_sub sub cs of
              None \<Rightarrow> None
            | Some (before, after) \<Rightarrow> Some (c # before, after)))"

text \<open>\<open>s.partition(sep)\<close> for a non-empty separator, and \<open>sub in s\<close>.\<close>

definition py_partition :: "string \<Rightarrow> string \<Rightarrow> string \<times> string \<times> string" where
  "py_partition s sep =
     (case find_sub sep s of
        None \<Rightarrow> (s, [], [])
      | Some (before, after) \<Rightarrow> (before, sep, after))"

definition py_in :: "string \<Rightarrow> string \<Rightarrow> bool" where
  "py_in sub s = (find_sub sub s \<noteq> None)"

text \<open>\<open>s.lower()\<close> on code points below 256: A-Z and the upper-case letters of Latin-1.\<close>

definition lower_char :: "char \<Rightarrow> char" where
  "lower_char c = (let n = (of_char c :: nat) in
      if (65 \<le> n \<and> n \<le> 90) \<or> (192 \<le> n \<and> n \<le> 222 \<and> n \<noteq> 215)
      then char_of (n + 32) else c)"

definition py_lower :: "string \<Rightarrow> string" where
  "py_lower s = map lower_char s"

text \<open>
  \<open>s.splitlines()\<close>: a line ends at LF, VT, FF, CR, CR LF, FS, GS, RS or NEL; the line
  boundaries are dropped and a final boundary opens no further line.
\<close>

definition is_linebreak :: "char \<Rightarrow> bool" where
  "is_linebreak c = (let n = (of_char c :: nat) in
      (10 \<le> n \<and> n \<le> 13) \<or> (28 \<le> n \<and> n \<le> 30) \<or> n = 133)"

fun splitlines_from :: "string \<Rightarrow> string \<Rightarrow> string list" where
  "splitlines_from line [] = (if line = [] then [] else [line])"
| "splitlines_from line [c] =
     (if is_linebreak c then [line] else [line @ [c]])"
| "splitlines_from line (c # d # cs) =
     (if c = CHR 0x0D \<and> d = CHR 0x0A then line # splitlines_from [] cs
      else if is_linebreak c then line # splitlines_from [] (d # cs)
      else splitlines_from (line @ [c]) (d # cs))"

definition splitlines :: "string \<Rightarrow> string list" where
  "splitlines s = splitlines_from [] s"

text \<open>\<open>sep.join(xs)\<close> and \<open>str(i)\<close> for an integer.\<close>

fun join :: "string \<Rightarrow> string list \<Rightarrow> string" where
  "join sep [] = []"
| "join sep [x] = x"
| "join sep (x # y # ys) = x @ sep @ join sep (y # ys)"

definition digit_char :: "nat \<Rightarrow> char" where
  "digit_char d = ''0123456789'' ! d"

function str_nat :: "nat \<Rightarrow> string" where
  "str_nat n = (if n < 10 then [digit_char n] else str_nat (n div 10) @ [digit_char (n mod 10)])"
  by pat_completeness auto
termination
  by (relation "measure id") auto

declare str_nat.simps [simp del]

definition str_int :: "int \<Rightarrow> string" where
  "str_int i = (if i < 0 then CHR ''-'' # str_nat (nat (- i)) else str_nat (nat i))"

text \<open>
  The values a format field receives, and \<open>format(v, spec)\<close> for the two format
  specifications the tables use: none, or a bare minimum width (numbers are then
  right-aligned, strings left-aligned, nothing is truncated). A float is carried as its
  \<open>str\<close>, which the number model of the caller supplies.
\<close>

datatype pyval = PInt int | PStr string | PFloat string

fun py_str :: "pyval \<Rightarrow> string" where
  "py_str (PInt i) = str_int i"
| "py_str (PStr s) = s"
| "py_str (PFloat s) = s"

definition ljust :: "nat \<Rightarrow> string \<Rightarrow> string" where
  "ljust w s = s @ replicate (w - length s) (CHR '' '')"

definition rjust :: "nat \<Rightarrow> string \<Rightarrow> string" where
  "rjust w s = replicate (w - length s) (CHR '' '') @ s"

fun format_value :: "pyval \<Rightarrow> nat option \<Rightarrow> string" where
  "format_value v None = py_str v"
| "format_value (PStr s) (Some w) = ljust w s"
| "format_value (PInt i) (Some w) = rjust w (str_int i)"
| "format_value (PFloat s) (Some w) = rjust w s"

text \<open>
  A table's \<open>fmt\<close> string is a sequence of replacement fields \<open>{name:width}\<close> (the last
  one \<open>{name}\<close>) separated by single spaces; \<open>fmt.format(**d)\<close> looks every field up in
  the keyword dictionary.
\<close>

type_synonym fmt = "(string \<times> nat option) list"

definition fmt_format :: "fmt \<Rightarrow> (string \<times> pyval) list \<Rightarrow> error + string" where
  "fmt_format fmt d =
     bind_err
       (map_err (\<lambda>(field, width).
                   case map_of d field of
                     None \<Rightarrow> Inl KeyError
                   | Some v \<Rightarrow> Inr (format_value v width)) fmt)
       (\<lambda>cells. Inr (join '' '' cells))"

section \<open>dzcb.munge: the channel name normalizer\<close>

text \<open>
  The replacement dictionary, in insertion order. \<open>popitem()\<close> removes the entry
  inserted last.
\<close>

definition Talkgroup_Channel_name_replacements :: "(string \<times> string) list" where
  "Talkgroup_Channel_name_replacements =
     [(''Audio Test'', ''A.Test''),
      (''California'', ''CA''),
      (''English'', ''Eng''),
      (''Hawaii'', ''HI''),
      (''Idaho'', ''ID''),
      (''Montana'', ''MT''),
      (''North America'', ''NA''),
      (''Oregon'', ''OR''),
      (''Utah'', ''UT''),
      (''Washington'', ''WA''),
      (''Worldwide'', ''WW'')]"

text \<open>
  The \<open>while\<close> loop of \<open>channel_name\<close>: as long as the name is too long and the copy of
  the dictionary is not empty, pop an entry and apply it.
\<close>

function replace_loop :: "string \<Rightarrow> int \<Rightarrow> (string \<times> string) list \<Rightarrow> string" where
  "replace_loop ch_name max_length replacements =
     (if int (length ch_name) > max_length then
        (if replacements = [] then ch_name
         else replace_loop
                (py_replace ch_name (fst (last replacements)) (snd (last replacements)))
                max_length (butlast replacements))
      else ch_name)"
  by pat_completeness auto
termination
  by (relation "measure (\<lambda>(s, m, r). length r)") auto

declare replace_loop.simps [simp del]

text \<open>
  \<open>re.search(r"[12]?\s[A-Z]+$", ch_name)\<close>. The character classes: \<open>\s\<close> is the
  whitespace of a \<open>str\<close> pattern (below 256: TAB to CR, FS to US, space, NEL, NBSP),
  \<open>[A-Z]\<close> the 26 ASCII capitals. \<open>match_space_upper\<close> matches \<open>\s[A-Z]+$\<close> at the
  start of its argument: the greedy run of capitals must reach the end of the string
  or the line feed that ends it. \<open>match_tail_code\<close> puts the optional \<open>[12]\<close> in
  front, trying the digit first, and \<open>re_search_tail_code\<close> returns the match at the
  leftmost position that has one.
\<close>

definition is_space :: "char \<Rightarrow> bool" where
  "is_space c = (let n = (of_char c :: nat) in
      (9 \<le> n \<and> n \<le> 13) \<or> (28 \<le> n \<and> n \<le> 32) \<or> n = 133 \<or> n = 160)"

definition is_A_Z :: "char \<Rightarrow> bool" where
  "is_A_Z c = (let n = (of_char c :: nat) in 65 \<le> n \<and> n \<le> 90)"

fun match_space_upper :: "string \<Rightarrow> string option" where
  "match_space_upper [] = None"
| "match_space_upper (c # r) =
     (if is_space c then
        (let u = takeWhile is_A_Z r; after = dropWhile is_A_Z r in
         if u \<noteq> [] \<and> (after = [] \<or> after = [CHR 0x0A]) then Some (c # u) else None)
      else None)"

fun match_tail_code :: "string \<Rightarrow> string option" where
  "match_tail_code [] = None"
| "match_tail_code (c # r) =
     (if c = CHR ''1'' \<or> c = CHR ''2'' then
        (case match_space_upper r of
           Some m \<Rightarrow> Some (c # m)
         | None \<Rightarrow> match_space_upper (c # r))
      else match_space_upper (c # r))"

fun re_search_tail_code :: "string \<Rightarrow> string option" where
  "re_search_tail_code [] = None"
| "re_search_tail_code (c # cs) =
     (case match_tail_code (c # cs) of
        Some m \<Rightarrow> Some m
      | None \<Rightarrow> re_search_tail_code cs)"

definition channel_name :: "string \<Rightarrow> int \<Rightarrow> string" where
  "channel_name ch_name0 max_length =
     (let ch_name = replace_loop ch_name0 max_length Talkgroup_Channel_name_replacements;
          tail_code = re_search_tail_code ch_name;
          ch_name' =
            (case tail_code of
               Some grp \<Rightarrow>
                 if int (length ch_name) > max_length then
                   (let n_tail = int (length grp) in
                    if max_length > n_tail + 1 then
                      (let n_trunc = int (length ch_name) - max_length in
                       py_slice_to ch_name (- n_trunc - n_tail) @ py_slice_from ch_name (- n_tail))
                    else ch_name)
                 else ch_name
             | None \<Rightarrow> ch_name)
      in py_slice_to ch_name' max_length)"

definition zone_name :: "string \<Rightarrow> int \<Rightarrow> string" where
  "zone_name zone_name0 max_length = py_slice_to zone_name0 max_length"

section \<open>dzcb.output.dmrconfig: radios and their limits\<close>

datatype Radio = D868 | DMR6X2 | GD77 | MD_UV380 | MD_380 | RD5R

fun Radio_value :: "Radio \<Rightarrow> string" where
  "Radio_value D868 = ''Anytone AT-D868UV''"
| "Radio_value DMR6X2 = ''BTECH DMR-6x2''"
| "Radio_value GD77 = ''Radioddity GD-77''"
| "Radio_value MD_UV380 = ''TYT MD-UV380''"
| "Radio_value MD_380 = ''TYT MD-380''"
| "Radio_value RD5R = ''Baofeng RD-5R''"

definition Radio_members :: "Radio list" where
  "Radio_members = [D868, DMR6X2, GD77, MD_UV380, MD_380, RD5R]"

text \<open>\<open>Radio(radio_type)\<close>: the member with that value, or the enumeration's \<open>ValueError\<close>.\<close>

definition Radio_of_value :: "string \<Rightarrow> error + Radio" where
  "Radio_of_value v =
     (case find (\<lambda>r. Radio_value r = v) Radio_members of
        Some r \<Rightarrow> Inr r
      | None \<Rightarrow> Inl (ValueError v))"

fun channel_limit :: "Radio \<Rightarrow> (int \<times> int) option" where
  "channel_limit D868 = Some (1, 4000)"
| "channel_limit DMR6X2 = Some (1, 4000)"
| "channel_limit RD5R = Some (1, 1024)"
| "channel_limit GD77 = Some (1, 1024)"
| "channel_limit MD_380 = Some (1, 1000)"
| "channel_limit MD_UV380 = Some (1, 3000)"

fun zone_limit :: "Radio \<Rightarrow> (int \<times> int) option" where
  "zone_limit r = Some (1, 250)"

fun scanlist_limit :: "Radio \<Rightarrow> (int \<times> int) option" where
  "scanlist_limit D868 = Some (1, 250)"
| "scanlist_limit DMR6X2 = Some (1, 250)"
| "scanlist_limit RD5R = None"
| "scanlist_limit GD77 = Some (1, 64)"
| "scanlist_limit MD_380 = Some (1, 250)"
| "scanlist_limit MD_UV380 = Some (1, 250)"

fun contact_limit :: "Radio \<Rightarrow> (int \<times> int) option" where
  "contact_limit D868 = Some (1, 10000)"
| "contact_limit DMR6X2 = Some (1, 10000)"
| "contact_limit RD5R = Some (1, 256)"
| "contact_limit GD77 = Some (1, 1024)"
| "contact_limit MD_380 = Some (1, 10000)"
| "contact_limit MD_UV380 = Some (1, 10000)"

fun grouplist_limit :: "Radio \<Rightarrow> (int \<times> int) option" where
  "grouplist_limit D868 = Some (1, 250)"
| "grouplist_limit DMR6X2 = Some (1, 250)"
| "grouplist_limit RD5R = Some (1, 64)"
| "grouplist_limit GD77 = Some (1, 76)"
| "grouplist_limit MD_380 = Some (1, 250)"
| "grouplist_limit MD_UV380 = Some (1, 250)"

fun name_limit :: "Radio \<Rightarrow> int" where
  "name_limit r = 16"

text \<open>
  The members of \<open>dzcb.model.Power\<close> and \<open>dzcb.model.Bandwidth\<close> that the per-radio
  dictionaries name.
\<close>

datatype Power = LOW | MED | HIGH | TURBO

datatype Bandwidth = BW_125 | BW_25

fun power :: "Radio \<Rightarrow> (Power \<times> string) list" where
  "power D868 = [(HIGH, ''High''), (MED, ''Mid''), (LOW, ''Low''), (TURBO, ''Turbo'')]"
| "power DMR6X2 = [(HIGH, ''High''), (MED, ''Mid''), (LOW, ''Low''), (TURBO, ''Turbo'')]"
| "power RD5R = [(HIGH, ''High''), (LOW, ''Low'')]"
| "power GD77 = [(HIGH, ''High''), (LOW, ''Low'')]"
| "power MD_380 = [(HIGH, ''High''), (LOW, ''Low'')]"
| "power MD_UV380 = [(HIGH, ''High''), (MED, ''Mid''), (LOW, ''Low'')]"

fun bandwidth :: "Radio \<Rightarrow> (Bandwidth \<times> string) list" where
  "bandwidth r = [(BW_125, ''12.5''), (BW_25, ''25'')]"

fun plus_minus :: "bool \<Rightarrow> string" where
  "plus_minus True = ''+''"
| "plus_minus False = ''-''"

section \<open>Index resolver and range compressor\<close>

text \<open>\<open>Range = Union[int, Tuple[int, int]]\<close>\<close>

datatype range_tok = Ix int | Rng int int

text \<open>
  \<open>items_by_index\<close>: the dictionary comprehension stores the entries one after the other,
  so a key that occurs twice keeps the index of its last occurrence. A call that passes
  no \<open>key\<close> is modelled with the identity.
\<close>

definition items_by_index :: "'a list \<Rightarrow> ('a \<Rightarrow> 'k) \<Rightarrow> int \<Rightarrow> ('k \<rightharpoonup> int)" where
  "items_by_index all_items key offset =
     foldl (\<lambda>m (ix, item). m(key item \<mapsto> int ix + offset)) Map.empty (enumerate 0 all_items)"

text \<open>The subscription \<open>items_by_index[k]\<close> raises \<open>KeyError\<close> for a missing key.\<close>

definition getitem :: "('k \<rightharpoonup> int) \<Rightarrow> 'k \<Rightarrow> error + int" where
  "getitem d k = (case d k of None \<Rightarrow> Inl KeyError | Some v \<Rightarrow> Inr v)"

text \<open>One turn of the loop of \<open>items_to_range_tuples\<close> on the list \<open>selected_ranges\<close>.\<close>

definition range_step :: "range_tok list \<Rightarrow> int \<Rightarrow> range_tok list" where
  "range_step selected_ranges selected_index =
     (if selected_ranges = [] then [Ix selected_index]
      else (case last selected_ranges of
              Ix previous_index \<Rightarrow>
                if previous_index + 1 = selected_index
                then butlast selected_ranges @ [Rng previous_index selected_index]
                else selected_ranges @ [Ix selected_index]
            | Rng low_index previous_index \<Rightarrow>
                if previous_index + 1 = selected_index
                then butlast selected_ranges @ [Rng low_index selected_index]
                else selected_ranges @ [Ix selected_index]))"

definition compress :: "int list \<Rightarrow> range_tok list" where
  "compress selected = foldl range_step [] selected"

text \<open>
  \<open>items_to_range_tuples\<close>: the indexes of all selected items are looked up first (the
  generator is turned into a tuple before the loop starts), then compressed.
\<close>

definition items_to_range_tuples ::
  "('k \<rightharpoonup> int) \<Rightarrow> 'a list \<Rightarrow> ('a \<Rightarrow> 'k) \<Rightarrow> error + range_tok list" where
  "items_to_range_tuples items_by_ix selected_items key =
     bind_err (map_err (\<lambda>item. getitem items_by_ix (key item)) selected_items)
       (\<lambda>selected. Inr (compress selected))"

fun offset_range :: "int \<Rightarrow> range_tok \<Rightarrow> range_tok" where
  "offset_range offset (Ix i) = Ix (i + offset)"
| "offset_range offset (Rng low high) = Rng (low + offset) (high + offset)"

definition offset_ranges :: "range_tok list \<Rightarrow> int \<Rightarrow> range_tok list" where
  "offset_ranges ranges offset = map (offset_range offset) ranges"

definition format_range :: "range_tok \<Rightarrow> string" where
  "format_range r =
     (case r of
        Rng low high \<Rightarrow> str_int low @ ''-'' @ str_int high
      | Ix i \<Rightarrow> str_int i)"

definition format_ranges :: "range_tok list \<Rightarrow> string" where
  "format_ranges ranges = join '','' (map format_range ranges)"

text \<open>
  The documentation blocks call \<open>format_ranges([limit[radio]])\<close> on an entry of a limit
  table, which is a pair or \<open>None\<close>; \<open>None\<close> is formatted by \<open>str\<close>.
\<close>

definition format_limit :: "(int \<times> int) option \<Rightarrow> string" where
  "format_limit limit =
     (case limit of
        Some (low, high) \<Rightarrow> format_ranges [Rng low high]
      | None \<Rightarrow> ''None'')"

text \<open>What a token stands for: the expansion the range notation is read back with.\<close>

fun expand :: "range_tok \<Rightarrow> int list" where
  "expand (Ix i) = [i]"
| "expand (Rng low high) = [low..high]"

definition expand_all :: "range_tok list \<Rightarrow> int list" where
  "expand_all ranges = concat (map expand ranges)"

section \<open>The codeplug model\<close>

text \<open>
  The classes of \<open>dzcb.model\<close> are not among the sources at hand. The records below hold
  the attributes that the tables read from them, under the names the tables use (with
  a prefix where two classes share a name). The type \<open>'f\<close> is the number type of
  frequencies and offsets.
\<close>

record Contact =
  contact_name :: string
  kind_value :: string
  dmrid :: int
  timeslot_value :: "int option"

record 'f Channel =
  short_name :: string
  frequency :: 'f
  ch_offset :: 'f
  ch_power :: Power
  ch_scanlist :: "nat option"
  rx_only :: bool

record 'f AnalogChannel = "'f Channel" +
  tone_decode :: "string option"
  tone_encode :: "string option"
  ch_bandwidth :: Bandwidth

record 'f DigitalChannel = "'f Channel" +
  color_code :: int
  talkgroup :: "Contact option"
  ch_grouplist :: "nat option"

datatype 'f channel = Analog "'f AnalogChannel" | Digital "'f DigitalChannel"

record 'f Zone =
  zone_name_of :: string
  unique_channels :: "'f channel list"

record 'f ScanList =
  sl_id :: nat
  scanlist_name :: string
  scanlist_channels :: "'f channel list"

record GroupList =
  gl_id :: nat
  grouplist_name :: string
  grouplist_contacts :: "Contact list"

record 'f Codeplug =
  channels :: "'f channel list"
  zones :: "'f Zone list"
  scanlists :: "'f ScanList list"
  contacts :: "Contact list"
  grouplists :: "GroupList list"

text \<open>
  What the tables call in \<open>dzcb\<close> outside the sources at hand is taken as a parameter:
  the package version, \<open>str\<close> of a frequency, and the methods \<open>flattened\<close> and \<open>value\<close>
  of the power and bandwidth enumerations.
\<close>

record 'f dzcb_env =
  version :: string
  str_float :: "'f \<Rightarrow> string"
  Power_flattened :: "Power \<Rightarrow> (Power \<times> string) list \<Rightarrow> error + Power"
  Power_value :: "Power \<Rightarrow> string"
  Bandwidth_flattened :: "Bandwidth \<Rightarrow> (Bandwidth \<times> string) list \<Rightarrow> error + Bandwidth"
  Bandwidth_value :: "Bandwidth \<Rightarrow> string"

section \<open>CodeplugIndexLookup and Table\<close>

record 'f CodeplugIndexLookup =
  lookup_codeplug :: "'f Codeplug"
  offset :: int
  contact :: "Contact \<rightharpoonup> int"
  grouplist_id :: "nat \<rightharpoonup> int"
  scanlist_id :: "nat \<rightharpoonup> int"
  channel :: "'f channel \<rightharpoonup> int"

definition CodeplugIndexLookup_init :: "'f Codeplug \<Rightarrow> int \<Rightarrow> 'f CodeplugIndexLookup" where
  "CodeplugIndexLookup_init cp off =
     \<lparr>lookup_codeplug = cp,
      offset = off,
      contact = items_by_index (contacts cp) (\<lambda>c. c) off,
      grouplist_id = items_by_index (grouplists cp) gl_id off,
      scanlist_id = items_by_index (scanlists cp) sl_id off,
      channel = items_by_index (channels cp) (\<lambda>ch. ch) off\<rparr>"

record 'f Table =
  codeplug :: "'f Codeplug"
  table_radio :: Radio
  index :: "'f CodeplugIndexLookup"

text \<open>\<open>Table(codeplug)\<close> with the defaults of \<open>radio\<close> and \<open>index\<close>, and \<open>evolve_from\<close>.\<close>

definition Table_init :: "'f Codeplug \<Rightarrow> 'f Table" where
  "Table_init cp =
     \<lparr>codeplug = cp, table_radio = D868, index = CodeplugIndexLookup_init cp 1\<rparr>"

definition evolve_from :: "'f Table \<Rightarrow> Radio \<Rightarrow> 'f Table" where
  "evolve_from table r = table\<lparr>table_radio := r\<rparr>"

definition name_munge :: "'f Table \<Rightarrow> string \<Rightarrow> string" where
  "name_munge t name = py_replace (py_slice_to name (name_limit (table_radio t))) '' '' ''_''"

text \<open>\<open>header()\<close>: every field is formatted with its own name.\<close>

definition table_header :: "fmt \<Rightarrow> string list \<Rightarrow> error + string" where
  "table_header fmt field_names = fmt_format fmt (map (\<lambda>k. (k, PStr k)) field_names)"

text \<open>
  \<open>Table.__iter__\<close> for a table with an \<open>object_name\<close>: the collection of that name is
  enumerated and every item is formatted with its position plus one.
\<close>

definition enumerate1 :: "'a list \<Rightarrow> (int \<times> 'a) list" where
  "enumerate1 items = map (\<lambda>(ix, item). (int ix + 1, item)) (enumerate 0 items)"

definition table_iter :: "(int \<Rightarrow> 'a \<Rightarrow> error + string) \<Rightarrow> 'a list \<Rightarrow> error + string list" where
  "table_iter format_row items = map_err (\<lambda>(ix, item). format_row ix item) (enumerate1 items)"

text \<open>
  A documentation block is the class docstring without its trailing white space, with
  the replacement fields filled in and the indentation in front of every \<open>#\<close> removed.
\<close>

definition docstring :: "string list \<Rightarrow> string" where
  "docstring doc_lines = concat (map (\<lambda>l. NL @ ''    '' @ l) doc_lines)"

definition unindent :: "string \<Rightarrow> string" where
  "unindent doc = py_replace doc ''    #'' ''#''"

text \<open>\<open>index.get(key, "-")\<close> for a reference that may be \<open>None\<close>.\<close>

definition get_or_dash :: "('k \<rightharpoonup> int) \<Rightarrow> 'k option \<Rightarrow> pyval" where
  "get_or_dash d k =
     (case k of
        None \<Rightarrow> PStr ''-''
      | Some k' \<Rightarrow> (case d k' of None \<Rightarrow> PStr ''-'' | Some i \<Rightarrow> PInt i))"

text \<open>\<open>tone or "-"\<close>: \<open>None\<close> and the empty string are both false.\<close>

definition tone_or_dash :: "string option \<Rightarrow> pyval" where
  "tone_or_dash tone =
     (case tone of
        None \<Rightarrow> PStr ''-''
      | Some s \<Rightarrow> if s = [] then PStr ''-'' else PStr s)"

subsection \<open>AnalogChannelTable\<close>

definition AnalogChannelTable_field_names :: "string list" where
  "AnalogChannelTable_field_names =
     [''Analog'', ''Name'', ''Receive'', ''Transmit'', ''Power'', ''Scan'', ''TOT'', ''RO'',
      ''Admit'', ''Squelch'', ''RxTone'', ''TxTone'', ''Width'']"

definition AnalogChannelTable_fmt :: fmt where
  "AnalogChannelTable_fmt =
     [(''Analog'', Some 6), (''Name'', Some 16), (''Receive'', Some 8), (''Transmit'', Some 8),
      (''Power'', Some 5), (''Scan'', Some 4), (''TOT'', Some 3), (''RO'', Some 2),
      (''Admit'', Some 5), (''Squelch'', Some 7), (''RxTone'', Some 6), (''TxTone'', Some 6),
      (''Width'', None)]"

definition analog_item_to_dict ::
  "('f::plus) dzcb_env \<Rightarrow> 'f Table \<Rightarrow> int \<Rightarrow> 'f AnalogChannel \<Rightarrow> error + (string \<times> pyval) list" where
  "analog_item_to_dict env t ix ch =
     bind_err (Power_flattened env (ch_power ch) (power (table_radio t))) (\<lambda>p.
     bind_err (Bandwidth_flattened env (ch_bandwidth ch) (bandwidth (table_radio t))) (\<lambda>b.
       Inr [(''Analog'', PInt ix),
            (''Name'', PStr (name_munge t (short_name ch))),
            (''Receive'', PFloat (str_float env (frequency ch))),
            (''Transmit'', PFloat (str_float env (frequency ch + ch_offset ch))),
            (''Power'', PStr (Power_value env p)),
            (''Scan'', get_or_dash (scanlist_id (index t)) (ch_scanlist ch)),
            (''TOT'', PInt 90),
            (''RO'', PStr (plus_minus (rx_only ch))),
            (''Admit'', PStr ''Free''),
            (''Squelch'', PStr ''Normal''),
            (''RxTone'', tone_or_dash (tone_decode ch)),
            (''TxTone'', tone_or_dash (tone_encode ch)),
            (''Width'', PStr (Bandwidth_value env b))]))"

definition analog_format_row ::
  "('f::plus) dzcb_env \<Rightarrow> 'f Table \<Rightarrow> int \<Rightarrow> 'f AnalogChannel \<Rightarrow> error + string" where
  "analog_format_row env t ix ch =
     bind_err (analog_item_to_dict env t ix ch) (fmt_format AnalogChannelTable_fmt)"

definition analog_docs :: "'f dzcb_env \<Rightarrow> 'f Table \<Rightarrow> string" where
  "analog_docs env t =
     unindent (docstring
       [''# Table of analog channels.'',
        ''# 1) Channel number: '' @ format_limit (channel_limit (table_radio t)),
        ''# 2) Name: up to '' @ str_int (name_limit (table_radio t))
           @ '' characters, use '_' instead of space'',
        ''# 3) Receive frequency in MHz'',
        ''# 4) Transmit frequency or +/- offset in MHz'',
        ''# 5) Transmit power: ''
           @ join '', '' (map (\<lambda>(p, label). Power_value env p) (power (table_radio t))),
        ''# 6) Scan list: - or index'',
        ''# 7) Transmit timeout timer: (unused)'',
        ''# 8) Receive only: -, +'',
        ''# 9) Admit criteria: -, Free, Tone'',
        ''# 10) Squelch level: Normal (unused)'',
        ''# 11) Guard tone for receive, or '-' to disable'',
        ''# 12) Guard tone for transmit, or '-' to disable'',
        ''# 13) Bandwidth in kHz: ''
           @ join '', '' (map (\<lambda>(b, label). Bandwidth_value env b) (bandwidth (table_radio t)))])"

text \<open>
  \<open>AnalogChannelTable.__iter__\<close>: all channels are enumerated, the ones that are not
  analog are skipped, and a row is numbered with the position in the whole collection.
\<close>

definition analog_entries :: "'f Table \<Rightarrow> (int \<times> 'f AnalogChannel) list" where
  "analog_entries t =
     concat (map (\<lambda>(ix, ch). case ch of Analog a \<Rightarrow> [(ix, a)] | Digital d \<Rightarrow> [])
                 (enumerate1 (channels (codeplug t))))"

definition analog_rows :: "('f::plus) dzcb_env \<Rightarrow> 'f Table \<Rightarrow> error + string list" where
  "analog_rows env t = map_err (\<lambda>(ix, ch). analog_format_row env t ix ch) (analog_entries t)"

subsection \<open>DigitalChannelTable\<close>

definition DigitalChannelTable_field_names :: "string list" where
  "DigitalChannelTable_field_names =
     [''Digital'', ''Name'', ''Receive'', ''Transmit'', ''Power'', ''Scan'', ''TOT'', ''RO'',
      ''Admit'', ''Color'', ''Slot'', ''RxGL'', ''TxContact'']"

definition DigitalChannelTable_fmt :: fmt where
  "DigitalChannelTable_fmt =
     [(''Digital'', Some 7), (''Name'', Some 16), (''Receive'', Some 8), (''Transmit'', Some 8),
      (''Power'', Some 5), (''Scan'', Some 4), (''TOT'', Some 3), (''RO'', Some 2),
      (''Admit'', Some 5), (''Color'', Some 5), (''Slot'', Some 4), (''RxGL'', Some 4),
      (''TxContact'', None)]"

text \<open>
  \<open>ch.talkgroup.timeslot.value\<close> needs a talkgroup, and a contact that is a talkgroup
  (one that has a time slot).
\<close>

definition talkgroup_timeslot :: "Contact option \<Rightarrow> error + int" where
  "talkgroup_timeslot tg =
     (case tg of
        None \<Rightarrow> Inl AttributeError
      | Some c \<Rightarrow> (case timeslot_value c of None \<Rightarrow> Inl AttributeError | Some s \<Rightarrow> Inr s))"

definition digital_item_to_dict ::
  "('f::plus) dzcb_env \<Rightarrow> 'f Table \<Rightarrow> int \<Rightarrow> 'f DigitalChannel \<Rightarrow> error + (string \<times> pyval) list" where
  "digital_item_to_dict env t ix ch =
     bind_err (Power_flattened env (ch_power ch) (power (table_radio t))) (\<lambda>p.
     bind_err (talkgroup_timeslot (talkgroup ch)) (\<lambda>slot.
       Inr [(''Digital'', PInt ix),
            (''Name'', PStr (name_munge t (short_name ch))),
            (''Receive'', PFloat (str_float env (frequency ch))),
            (''Transmit'', PFloat (str_float env (frequency ch + ch_offset ch))),
            (''Power'', PStr (Power_value env p)),
            (''Scan'', get_or_dash (scanlist_id (index t)) (ch_scanlist ch)),
            (''TOT'', PInt 90),
            (''RO'', PStr (plus_minus (rx_only ch))),
            (''Admit'', PStr ''Color''),
            (''Color'', PInt (color_code ch)),
            (''Slot'', PInt slot),
            (''RxGL'', get_or_dash (grouplist_id (index t)) (ch_grouplist ch)),
            (''TxContact'', get_or_dash (contact (index t)) (talkgroup ch))]))"

definition digital_format_row ::
  "('f::plus) dzcb_env \<Rightarrow> 'f Table \<Rightarrow> int \<Rightarrow> 'f DigitalChannel \<Rightarrow> error + string" where
  "digital_format_row env t ix ch =
     bind_err (digital_item_to_dict env t ix ch) (fmt_format DigitalChannelTable_fmt)"

definition digital_docs :: "'f dzcb_env \<Rightarrow> 'f Table \<Rightarrow> string" where
  "digital_docs env t =
     unindent (docstring
       [''# Table of digital channels.'',
        ''# 1) Channel number: '' @ format_limit (channel_limit (table_radio t)),
        ''# 2) Name: up to '' @ str_int (name_limit (table_radio t))
           @ '' characters, use '_' instead of space'',
        ''# 3) Receive frequency in MHz'',
        ''# 4) Transmit frequency or +/- offset in MHz'',
        ''# 5) Transmit power: ''
           @ join '', '' (map (\<lambda>(p, label). Power_value env p) (power (table_radio t))),
        ''# 6) Scan list: - or index in Scanlist table'',
        ''# 7) Transmit timeout timer: (unused)'',
        ''# 8) Receive only: -, +'',
        ''# 9) Admit criteria: -, Free, Color, NColor'',
        ''# 10) Color code: 0, 1, 2, 3... 15'',
        ''# 11) Time slot: 1 or 2'',
        ''# 12) Receive group list: - or index in Grouplist table'',
        ''# 13) Contact for transmit: - or index in Contacts table''])"

definition digital_entries :: "'f Table \<Rightarrow> (int \<times> 'f DigitalChannel) list" where
  "digital_entries t =
     concat (map (\<lambda>(ix, ch). case ch of
                     Analog a \<Rightarrow> []
                   | Digital d \<Rightarrow> if talkgroup d = None then [] else [(ix, d)])
                 (enumerate1 (channels (codeplug t))))"

definition digital_rows :: "('f::plus) dzcb_env \<Rightarrow> 'f Table \<Rightarrow> error + string list" where
  "digital_rows env t = map_err (\<lambda>(ix, ch). digital_format_row env t ix ch) (digital_entries t)"

subsection \<open>ZoneTable\<close>

definition ZoneTable_field_names :: "string list" where
  "ZoneTable_field_names = [''Zone'', ''Name'', ''Channels'']"

definition ZoneTable_fmt :: fmt where
  "ZoneTable_fmt = [(''Zone'', Some 4), (''Name'', Some 16), (''Channels'', None)]"

definition zone_item_to_dict :: "'f Table \<Rightarrow> int \<Rightarrow> 'f Zone \<Rightarrow> error + (string \<times> pyval) list" where
  "zone_item_to_dict t ix zone =
     bind_err (items_to_range_tuples (channel (index t)) (unique_channels zone) (\<lambda>ch. ch))
       (\<lambda>ranges.
          Inr [(''Zone'', PInt ix),
               (''Name'', PStr (name_munge t (zone_name_of zone))),
               (''Channels'', PStr (format_ranges ranges))])"

definition zone_format_row :: "'f Table \<Rightarrow> int \<Rightarrow> 'f Zone \<Rightarrow> error + string" where
  "zone_format_row t ix zone = bind_err (zone_item_to_dict t ix zone) (fmt_format ZoneTable_fmt)"

definition zone_docs :: "'f Table \<Rightarrow> string" where
  "zone_docs t =
     unindent (docstring
       [''# Table of channel zones.'',
        ''# 1) Zone number: '' @ format_limit (zone_limit (table_radio t)),
        ''# 2) Name: up to 16 characters, use '_' instead of space'',
        ''# 3) List of channels: numbers and ranges (N-M) separated by comma''])"

definition zone_rows :: "'f Table \<Rightarrow> error + string list" where
  "zone_rows t = table_iter (zone_format_row t) (zones (codeplug t))"

subsection \<open>ScanlistTable\<close>

definition ScanlistTable_field_names :: "string list" where
  "ScanlistTable_field_names = [''Scanlist'', ''Name'', ''PCh1'', ''PCh2'', ''TxCh'', ''Channels'']"

definition ScanlistTable_fmt :: fmt where
  "ScanlistTable_fmt =
     [(''Scanlist'', Some 8), (''Name'', Some 16), (''PCh1'', Some 4), (''PCh2'', Some 4),
      (''TxCh'', Some 4), (''Channels'', None)]"

definition scanlist_item_to_dict ::
  "'f Table \<Rightarrow> int \<Rightarrow> 'f ScanList \<Rightarrow> error + (string \<times> pyval) list" where
  "scanlist_item_to_dict t ix scanlist =
     bind_err (items_to_range_tuples (channel (index t)) (scanlist_channels scanlist) (\<lambda>ch. ch))
       (\<lambda>ranges.
          Inr [(''Scanlist'', PInt ix),
               (''Name'', PStr (name_munge t (scanlist_name scanlist))),
               (''PCh1'', PStr ''Curr''),
               (''PCh2'', PStr ''-''),
               (''TxCh'', PStr ''Last''),
               (''Channels'', PStr (format_ranges ranges))])"

definition scanlist_format_row :: "'f Table \<Rightarrow> int \<Rightarrow> 'f ScanList \<Rightarrow> error + string" where
  "scanlist_format_row t ix scanlist =
     bind_err (scanlist_item_to_dict t ix scanlist) (fmt_format ScanlistTable_fmt)"

definition scanlist_docs :: "'f Table \<Rightarrow> string" where
  "scanlist_docs t =
     unindent (docstring
       [''# Table of scan lists.'',
        ''# 1) Scan list number: '' @ format_limit (scanlist_limit (table_radio t)),
        ''# 2) Name: up to 16 characters, use '_' instead of space'',
        ''# 3) Priority channel 1: -, Curr or index'',
        ''# 4) Priority channel 2: -, Curr or index'',
        ''# 5) Designated transmit channel: Sel or Last'',
        ''# 6) List of channels: numbers and ranges (N-M) separated by comma''])"

definition scanlist_rows :: "'f Table \<Rightarrow> error + string list" where
  "scanlist_rows t = table_iter (scanlist_format_row t) (scanlists (codeplug t))"

subsection \<open>ContactsTable\<close>

definition ContactsTable_field_names :: "string list" where
  "ContactsTable_field_names = [''Contact'', ''Name'', ''Type'', ''ID'', ''RxTone'']"

definition ContactsTable_fmt :: fmt where
  "ContactsTable_fmt =
     [(''Contact'', Some 8), (''Name'', Some 16), (''Type'', Some 7), (''ID'', Some 8),
      (''RxTone'', None)]"

definition contact_item_to_dict :: "'f Table \<Rightarrow> int \<Rightarrow> Contact \<Rightarrow> error + (string \<times> pyval) list" where
  "contact_item_to_dict t ix c =
     Inr [(''Contact'', PInt ix),
          (''Name'', PStr (name_munge t (contact_name c))),
          (''Type'', PStr (kind_value c)),
          (''ID'', PInt (dmrid c)),
          (''RxTone'', PStr ''-'')]"

definition contact_format_row :: "'f Table \<Rightarrow> int \<Rightarrow> Contact \<Rightarrow> error + string" where
  "contact_format_row t ix c = bind_err (contact_item_to_dict t ix c) (fmt_format ContactsTable_fmt)"

definition contact_docs :: "'f Table \<Rightarrow> string" where
  "contact_docs t =
     unindent (docstring
       [''# Table of contacts.'',
        ''# 1) Contact number: '' @ format_limit (contact_limit (table_radio t)),
        ''# 2) Name: up to 16 characters, use '_' instead of space'',
        ''# 3) Call type: Group, Private, All'',
        ''# 4) Call ID: 1...16777215'',
        ''# 5) Call receive tone: -, +''])"

definition contact_rows :: "'f Table \<Rightarrow> error + string list" where
  "contact_rows t = table_iter (contact_format_row t) (contacts (codeplug t))"

subsection \<open>GrouplistTable\<close>

definition GrouplistTable_field_names :: "string list" where
  "GrouplistTable_field_names = [''Grouplist'', ''Name'', ''Contacts'']"

definition GrouplistTable_fmt :: fmt where
  "GrouplistTable_fmt = [(''Grouplist'', Some 10), (''Name'', Some 16), (''Contacts'', None)]"

definition grouplist_item_to_dict ::
  "'f Table \<Rightarrow> int \<Rightarrow> GroupList \<Rightarrow> error + (string \<times> pyval) list" where
  "grouplist_item_to_dict t ix grouplist =
     bind_err (items_to_range_tuples (contact (index t)) (grouplist_contacts grouplist) (\<lambda>c. c))
       (\<lambda>ranges.
          Inr [(''Grouplist'', PInt ix),
               (''Name'', PStr (name_munge t (grouplist_name grouplist))),
               (''Contacts'', PStr (format_ranges ranges))])"

definition grouplist_format_row :: "'f Table \<Rightarrow> int \<Rightarrow> GroupList \<Rightarrow> error + string" where
  "grouplist_format_row t ix grouplist =
     bind_err (grouplist_item_to_dict t ix grouplist) (fmt_format GrouplistTable_fmt)"

definition grouplist_docs :: "'f Table \<Rightarrow> string" where
  "grouplist_docs t =
     unindent (docstring
       [''# Table of group lists.'',
        ''# 1) Group list number: '' @ format_limit (grouplist_limit (table_radio t)),
        ''# 2) Name: up to 16 characters, use '_' instead of space'',
        ''# 3) List of contacts: numbers and ranges (N-M) separated by comma''])"

definition grouplist_rows :: "'f Table \<Rightarrow> error + string list" where
  "grouplist_rows t = table_iter (grouplist_format_row t) (grouplists (codeplug t))"

section \<open>DmrConfigTemplate\<close>

record DmrConfigTemplate =
  header :: "string list"
  footer :: "string list"
  radio :: "Radio option"

definition is_metadata :: "string \<Rightarrow> bool" where
  "is_metadata tline =
     (py_in ''last programmed date'' (py_lower tline) \<or>
      py_in ''cps software version'' (py_lower tline))"

text \<open>The loop of \<open>read_template\<close> over the lines that are left, on the template \<open>t\<close>.\<close>

fun read_lines :: "DmrConfigTemplate \<Rightarrow> string list \<Rightarrow> error + DmrConfigTemplate" where
  "read_lines t [] = Inr t"
| "read_lines t (tline # rest) =
     (if radio t = None then
        (let t1 = t\<lparr>header := header t @ [tline]\<rparr> in
         case py_partition tline ''Radio: '' of
           (_, match, radio_type) \<Rightarrow>
             if match \<noteq> [] then
               (case Radio_of_value radio_type of
                  Inl e \<Rightarrow> Inl e
                | Inr r \<Rightarrow> read_lines (t1\<lparr>radio := Some r\<rparr>) rest)
             else read_lines t1 rest)
      else if is_metadata tline then read_lines (t\<lparr>header := header t @ [tline]\<rparr>) rest
      else read_lines (t\<lparr>footer := footer t @ [tline]\<rparr>) rest)"

definition read_template :: "string \<Rightarrow> error + DmrConfigTemplate" where
  "read_template template =
     (case read_lines \<lparr>header = [], footer = [], radio = None\<rparr> (splitlines template) of
        Inl e \<Rightarrow> Inl e
      | Inr t \<Rightarrow>
          if radio t = None then Inl (TemplateError ''template should specify a radio type'')
          else Inr (t\<lparr>header := header t @ ['''']\<rparr>))"

section \<open>Dmrconfig\_Codeplug\<close>

record 'f Dmrconfig_Codeplug =
  dc_table :: "'f Table"
  dc_template :: "DmrConfigTemplate option"
  dc_radio :: Radio
  dc_digital :: "'f Table"
  dc_analog :: "'f Table"
  dc_zone :: "'f Table"
  dc_scanlist :: "'f Table"
  dc_contact :: "'f Table"
  dc_grouplist :: "'f Table"

text \<open>
  The generated constructor: the template text goes through its converter
  \<open>read_template\<close>, the radio defaults to the template's, and the six tables are evolved
  from \<open>table\<close> with that radio. A radio that is still \<open>None\<close> is refused by the
  validators.
\<close>

definition Dmrconfig_Codeplug_init ::
  "'f Table \<Rightarrow> string option \<Rightarrow> Radio option \<Rightarrow> error + 'f Dmrconfig_Codeplug" where
  "Dmrconfig_Codeplug_init table template_text radio_arg =
     bind_err (case template_text of
                 None \<Rightarrow> Inr None
               | Some text \<Rightarrow> bind_err (read_template text) (\<lambda>t. Inr (Some t))) (\<lambda>tpl.
     bind_err (case radio_arg of
                 Some r \<Rightarrow> Inr r
               | None \<Rightarrow> (case tpl of
                            None \<Rightarrow> Inl TypeError
                          | Some t \<Rightarrow> (case radio t of None \<Rightarrow> Inl TypeError | Some r \<Rightarrow> Inr r))) (\<lambda>r.
       Inr \<lparr>dc_table = table,
            dc_template = tpl,
            dc_radio = r,
            dc_digital = evolve_from table r,
            dc_analog = evolve_from table r,
            dc_zone = evolve_from table r,
            dc_scanlist = evolve_from table r,
            dc_contact = evolve_from table r,
            dc_grouplist = evolve_from table r\<rparr>))"

definition version_line :: "'f dzcb_env \<Rightarrow> string" where
  "version_line env = ''# Written by dzcb.output.dmrconfig v. '' @ version env"

text \<open>\<open>render\<close>: the tuple is built from left to right, so the first failing part decides.\<close>

definition render :: "('f::plus) dzcb_env \<Rightarrow> 'f Dmrconfig_Codeplug \<Rightarrow> error + string list" where
  "render env dc =
     bind_err (table_header AnalogChannelTable_fmt AnalogChannelTable_field_names) (\<lambda>analog_header.
     bind_err (analog_rows env (dc_analog dc)) (\<lambda>analog.
     bind_err (table_header DigitalChannelTable_fmt DigitalChannelTable_field_names) (\<lambda>digital_header.
     bind_err (digital_rows env (dc_digital dc)) (\<lambda>digital.
     bind_err (table_header ContactsTable_fmt ContactsTable_field_names) (\<lambda>contact_header.
     bind_err (contact_rows (dc_contact dc)) (\<lambda>contact.
     bind_err (table_header GrouplistTable_fmt GrouplistTable_field_names) (\<lambda>grouplist_header.
     bind_err (grouplist_rows (dc_grouplist dc)) (\<lambda>grouplist.
     bind_err (table_header ScanlistTable_fmt ScanlistTable_field_names) (\<lambda>scanlist_header.
     bind_err (scanlist_rows (dc_scanlist dc)) (\<lambda>scanlist.
     bind_err (table_header ZoneTable_fmt ZoneTable_field_names) (\<lambda>zone_header.
     bind_err (zone_rows (dc_zone dc)) (\<lambda>zone.
       Inr ([version_line env, analog_docs env (dc_analog dc), analog_header]
            @ analog
            @ [digital_docs env (dc_digital dc), digital_header]
            @ digital
            @ [contact_docs (dc_contact dc), contact_header]
            @ contact
            @ [grouplist_docs (dc_grouplist dc), grouplist_header]
            @ grouplist
            @ [scanlist_docs (dc_scanlist dc), scanlist_header]
            @ scanlist
            @ [zone_docs (dc_zone dc), zone_header]
            @ zone)))))))))))))"

definition render_template :: "('f::plus) dzcb_env \<Rightarrow> 'f Dmrconfig_Codeplug \<Rightarrow> error + string" where
  "render_template env dc =
     (case dc_template dc of
        None \<Rightarrow> Inl AttributeError
      | Some t \<Rightarrow>
          bind_err (render env dc) (\<lambda>rendered. Inr (join NL (header t @ rendered @ footer t))))"

section \<open>Auxiliary notions of the proofs\<close>

text \<open>The upper end of a range token, and the tokens the compressor builds.\<close>

fun upper :: "range_tok \<Rightarrow> int" where
  "upper (Ix i) = i"
| "upper (Rng l h) = h"

fun tok_ok :: "range_tok \<Rightarrow> bool" where
  "tok_ok (Ix i) = True"
| "tok_ok (Rng l h) = (l < h)"

text \<open>
  The digits the tail pattern accepts, and the replacement pairs that can neither reach
  into a tail \<open>t\<close> nor put such a digit in front of it.
\<close>

definition is_12 :: "char \<Rightarrow> bool" where
  "is_12 c = (c = CHR ''1'' \<or> c = CHR ''2'')"

definition safe_pair :: "string \<Rightarrow> string \<times> string \<Rightarrow> bool" where
  "safe_pair t r = (fst r \<noteq> [] \<and> snd r \<noteq> [] \<and> last (fst r) \<notin> set t \<and> \<not> is_12 (last (snd r)))"

section \<open>Example data\<close>

text \<open>
  An environment in which frequencies are whole numbers, a power or bandwidth value
  flattens to itself when the radio's dictionary has it, and the enumeration values are
  the usual labels.
\<close>

definition example_env :: "int dzcb_env" where
  "example_env =
     \<lparr>version = ''0.3.10'',
      str_float = str_int,
      Power_flattened = (\<lambda>p allowed. if p \<in> set (map fst allowed) then Inr p
                                      else Inl (ModelError ''power'')),
      Power_value = (\<lambda>p. case p of LOW \<Rightarrow> ''Low'' | MED \<Rightarrow> ''Medium''
                               | HIGH \<Rightarrow> ''High'' | TURBO \<Rightarrow> ''Turbo''),
      Bandwidth_flattened = (\<lambda>b allowed. if b \<in> set (map fst allowed) then Inr b
                                          else Inl (ModelError ''bandwidth'')),
      Bandwidth_value = (\<lambda>b. case b of BW_125 \<Rightarrow> ''12.5'' | BW_25 \<Rightarrow> ''25'')\<rparr>"

definition alice :: Contact where
  "alice = \<lparr>contact_name = ''Alice'', kind_value = ''Group'', dmrid = 3100,
            timeslot_value = Some 1\<rparr>"

definition simplex :: "int AnalogChannel" where
  "simplex =
     \<lparr>short_name = ''Simplex 1'', frequency = 146, ch_offset = 0, ch_power = HIGH,
      ch_scanlist = None, rx_only = False,
      tone_decode = None, tone_encode = None, ch_bandwidth = BW_25\<rparr>"

definition calling :: "int AnalogChannel" where
  "calling =
     \<lparr>short_name = ''Calling'', frequency = 446, ch_offset = 0, ch_power = LOW,
      ch_scanlist = None, rx_only = True,
      tone_decode = None, tone_encode = Some ''100.0'', ch_bandwidth = BW_125\<rparr>"

definition local9 :: "int DigitalChannel" where
  "local9 =
     \<lparr>short_name = ''Local 9'', frequency = 440, ch_offset = 5, ch_power = HIGH,
      ch_scanlist = None, rx_only = False,
      color_code = 1, talkgroup = Some alice, ch_grouplist = Some 7\<rparr>"

text \<open>An analog channel, a digital channel, an analog channel; one zone over all three.\<close>

definition mixed_codeplug :: "int Codeplug" where
  "mixed_codeplug =
     \<lparr>channels = [Analog simplex, Digital local9, Analog calling],
      zones = [\<lparr>zone_name_of = ''Zone 1'',
                unique_channels = [Analog simplex, Digital local9, Analog calling]\<rparr>],
      scanlists = [],
      contacts = [alice],
      grouplists = [\<lparr>gl_id = 7, grouplist_name = ''GL1'', grouplist_contacts = [alice]\<rparr>]\<rparr>"

text \<open>The same analog channel twice.\<close>

definition doubled_codeplug :: "int Codeplug" where
  "doubled_codeplug =
     \<lparr>channels = [Analog simplex, Analog simplex],
      zones = [], scanlists = [], contacts = [], grouplists = []\<rparr>"

definition empty_codeplug :: "int Codeplug" where
  "empty_codeplug = \<lparr>channels = [], zones = [], scanlists = [], contacts = [], grouplists = []\<rparr>"

text \<open>
  Sixty-five group lists, for a radio that takes 64; sixty-five scan lists, for a radio
  that takes 64.
\<close>

definition numbered_grouplist :: "nat \<Rightarrow> GroupList" where
  "numbered_grouplist i = \<lparr>gl_id = i, grouplist_name = ''GL'', grouplist_contacts = []\<rparr>"

definition numbered_scanlist :: "nat \<Rightarrow> int ScanList" where
  "numbered_scanlist i = \<lparr>sl_id = i, scanlist_name = ''SL'', scanlist_channels = []\<rparr>"

definition crowded_grouplists :: "int Codeplug" where
  "crowded_grouplists =
     \<lparr>channels = [], zones = [], scanlists = [], contacts = [],
      grouplists = map numbered_grouplist [0..<65]\<rparr>"

definition crowded_scanlists :: "int Codeplug" where
  "crowded_scanlists =
     \<lparr>channels = [], zones = [], scanlists = map numbered_scanlist [0..<65],
      contacts = [], grouplists = []\<rparr>"

text \<open>The objects built from a codeplug and a one-line template.\<close>

definition built :: "int Codeplug \<Rightarrow> string \<Rightarrow> int Dmrconfig_Codeplug" where
  "built cp template = projr (Dmrconfig_Codeplug_init (Table_init cp) (Some template) None)"

text \<open>
  The mixed codeplug for the TYT MD-380, with a template of two lines, and the lines
  that \<open>render\<close> returns for it.
\<close>

definition footer_template :: string where
  "footer_template = ''Radio: TYT MD-380'' @ NL @ ''ID: 1234''"

definition mixed_table :: "int Table" where
  "mixed_table = evolve_from (Table_init mixed_codeplug) MD_380"

definition mixed_rendered :: "string list" where
  "mixed_rendered =
     [version_line example_env,
      analog_docs example_env mixed_table,
      ''Analog Name             Receive  Transmit Power Scan TOT RO Admit Squelch RxTone TxTone Width'',
      ''     1 Simplex_1             146      146 High  -     90 -  Free  Normal  -      -      25'',
      ''     3 Calling               446      446 Low   -     90 +  Free  Normal  -      100.0  12.5'',
      digital_docs example_env mixed_table,
      ''Digital Name             Receive  Transmit Power Scan TOT RO Admit Color Slot RxGL TxContact'',
      ''      2 Local_9               440      445 High  -     90 -  Color     1    1    1 1'',
      contact_docs mixed_table,
      ''Contact  Name             Type    ID       RxTone'',
      ''       1 Alice            Group       3100 -'',
      grouplist_docs mixed_table,
      ''Grouplist  Name             Contacts'',
      ''         1 GL1              1'',
      scanlist_docs mixed_table,
      ''Scanlist Name             PCh1 PCh2 TxCh Channels'',
      zone_docs mixed_table,
      ''Zone Name             Channels'',
      ''   1 Zone_1           1-3'']"

text \<open>The empty codeplug for the TYT MD-380.\<close>

definition empty_table :: "int Table" where
  "empty_table = evolve_from (Table_init empty_codeplug) MD_380"

definition doubled_table :: "int Table" where
  "doubled_table = evolve_from (Table_init doubled_codeplug) MD_380"

section \<open>Properties of the error-propagating map\<close>

lemma bind_err_Inr [simp]: "bind_err (Inr x) f = f x"
  by (simp add: bind_err_def)

lemma bind_err_Inl [simp]: "bind_err (Inl e) f = Inl e"
  by (simp add: bind_err_def)

lemma bind_err_eq_Inr:
  "bind_err m f = Inr y \<longleftrightarrow> (\<exists>x. m = Inr x \<and> f x = Inr y)"
  by (cases m) simp_all

lemma map_err_all_Inr:
  "\<forall>x \<in> set xs. f x = Inr (g x) \<Longrightarrow> map_err f xs = Inr (map g xs)"
  by (induction xs) simp_all

lemma map_err_length:
  "map_err f xs = Inr ys \<Longrightarrow> length ys = length xs"
proof (induction xs arbitrary: ys)
  case Nil then show ?case by simp
next
  case (Cons x xs)
  then show ?case by (auto split: sum.splits)
qed

lemma map_err_elements:
  "map_err f xs = Inr ys \<Longrightarrow> list_all2 (\<lambda>x y. f x = Inr y) xs ys"
proof (induction xs arbitrary: ys)
  case Nil then show ?case by simp
next
  case (Cons x xs)
  then show ?case by (auto split: sum.splits)
qed

lemma map_err_succeeds:
  "\<forall>x \<in> set xs. \<not> isl (f x) \<Longrightarrow> \<not> isl (map_err f xs)"
proof (induction xs)
  case Nil then show ?case by simp
next
  case (Cons x xs)
  then show ?case by (cases "f x"; cases "map_err f xs") simp_all
qed

lemma map_err_getitem_ok:
  assumes "\<forall>item \<in> set xs. d (key item) \<noteq> None"
  shows "map_err (\<lambda>item. getitem d (key item)) xs = Inr (map (\<lambda>item. the (d (key item))) xs)"
  by (rule map_err_all_Inr) (use assms in \<open>auto simp: getitem_def\<close>)

lemma map_err_getitem_result:
  "map_err (\<lambda>item. getitem d (key item)) xs = Inr ys \<Longrightarrow>
     ys = map (\<lambda>item. the (d (key item))) xs"
proof (induction xs arbitrary: ys)
  case Nil then show ?case by simp
next
  case (Cons x xs)
  then show ?case by (auto simp: getitem_def split: sum.splits option.splits)
qed

section \<open>Properties of the range compressor\<close>

lemma range_step_Nil: "range_step [] x = [Ix x]"
  by (simp add: range_step_def)

lemma range_step_snoc_Ix:
  "range_step (ts @ [Ix p]) x = (if p + 1 = x then ts @ [Rng p x] else ts @ [Ix p, Ix x])"
  by (simp add: range_step_def)

lemma range_step_snoc_Rng:
  "range_step (ts @ [Rng l p]) x = (if p + 1 = x then ts @ [Rng l x] else ts @ [Rng l p, Ix x])"
  by (simp add: range_step_def)

lemma compress_Nil: "compress [] = []"
  by (simp add: compress_def)

lemma compress_single: "compress [x] = [Ix x]"
  by (simp add: compress_def range_step_def)

lemma compress_snoc: "compress (xs @ [x]) = range_step (compress xs) x"
  by (simp add: compress_def)

lemma compress_last:
  "xs \<noteq> [] \<Longrightarrow> compress xs \<noteq> [] \<and> upper (last (compress xs)) = last xs"
proof (induction xs rule: rev_induct)
  case Nil then show ?case by simp
next
  case (snoc x xs)
  show ?case
  proof (cases "compress xs = []")
    case True then show ?thesis by (simp add: compress_snoc range_step_Nil)
  next
    case False
    then obtain ts t where acc: "compress xs = ts @ [t]" by (metis append_butlast_last_id)
    show ?thesis
      by (cases t) (simp_all add: compress_snoc acc range_step_snoc_Ix range_step_snoc_Rng)
  qed
qed

lemma compress_tok_ok: "list_all tok_ok (compress xs)"
proof (induction xs rule: rev_induct)
  case Nil then show ?case by (simp add: compress_Nil)
next
  case (snoc x xs)
  show ?case
  proof (cases "compress xs = []")
    case True then show ?thesis by (simp add: compress_snoc range_step_Nil)
  next
    case False
    then obtain ts t where acc: "compress xs = ts @ [t]" by (metis append_butlast_last_id)
    show ?thesis using snoc
      by (cases t) (simp_all add: compress_snoc acc range_step_snoc_Ix range_step_snoc_Rng)
  qed
qed

lemma expand_range_step:
  assumes "list_all tok_ok acc"
  shows "expand_all (range_step acc x) = expand_all acc @ [x]"
proof (cases "acc = []")
  case True then show ?thesis by (simp add: range_step_Nil expand_all_def)
next
  case False
  then obtain ts t where acc: "acc = ts @ [t]" by (metis append_butlast_last_id)
  have ok: "tok_ok t" using assms acc by simp
  show ?thesis
  proof (cases t)
    case (Ix p)
    have "[p..p + 1] = [p, p + 1]" by (simp add: upto_rec1)
    then have "p + 1 = x \<Longrightarrow> [p..x] = [p, x]" by auto
    then show ?thesis using acc Ix by (simp add: range_step_snoc_Ix expand_all_def)
  next
    case (Rng l h)
    then have "l < h" using ok by simp
    then have "[l..h + 1] = [l..h] @ [h + 1]" by (simp add: upto_rec2)
    then have "h + 1 = x \<Longrightarrow> [l..x] = [l..h] @ [x]" by auto
    then show ?thesis using acc Rng by (simp add: range_step_snoc_Rng expand_all_def)
  qed
qed

lemma expand_compress: "expand_all (compress xs) = xs"
proof (induction xs rule: rev_induct)
  case Nil then show ?case by (simp add: expand_all_def compress_Nil)
next
  case (snoc x xs)
  then show ?case
    using expand_range_step[OF compress_tok_ok[of xs], of x] by (simp add: compress_snoc)
qed

lemma length_compress_snoc:
  "length (compress (xs @ [x])) =
     length (compress xs) + (if xs = [] \<or> last xs + 1 \<noteq> x then 1 else 0)"
proof (cases "xs = []")
  case True then show ?thesis by (simp add: compress_single compress_Nil)
next
  case False
  then have ne: "compress xs \<noteq> []" and up: "upper (last (compress xs)) = last xs"
    using compress_last by auto
  then obtain ts t where acc: "compress xs = ts @ [t]" by (metis append_butlast_last_id)
  show ?thesis using False up
    by (cases t) (simp_all add: compress_snoc acc range_step_snoc_Ix range_step_snoc_Rng)
qed

lemma length_compress_append:
  "length (compress (xs @ ys)) \<le> length (compress xs) + length (compress ys)"
proof (induction ys rule: rev_induct)
  case Nil then show ?case by (simp add: compress_Nil)
next
  case (snoc y ys)
  have "length (compress ((xs @ ys) @ [y])) =
      length (compress (xs @ ys)) + (if xs @ ys = [] \<or> last (xs @ ys) + 1 \<noteq> y then 1 else 0)"
    by (rule length_compress_snoc)
  moreover have "length (compress (ys @ [y])) =
      length (compress ys) + (if ys = [] \<or> last ys + 1 \<noteq> y then 1 else 0)"
    by (rule length_compress_snoc)
  ultimately show ?case using snoc by (auto split: if_splits)
qed

lemma length_compress_upto: "length (compress [l..h]) \<le> 1"
proof (cases "l \<le> h")
  case False then show ?thesis by (simp add: compress_Nil)
next
  case True
  then show ?thesis
  proof (induction h rule: int_ge_induct)
    case base then show ?case by (simp add: compress_single)
  next
    case (step i)
    have "[l..i + 1] = [l..i] @ [i + 1]" using step by (simp add: upto_rec2)
    moreover have "[l..i] \<noteq> []" "last [l..i] = i" using step by (simp_all add: upto_rec2)
    ultimately show ?case using step length_compress_snoc[of "[l..i]" "i + 1"] by simp
  qed
qed

lemma length_compress_expand: "length (compress (expand t)) \<le> 1"
  using length_compress_upto by (cases t) (simp_all add: compress_single)

lemma compress_minimal: "length (compress (expand_all ts)) \<le> length ts"
proof (induction ts)
  case Nil then show ?case by (simp add: expand_all_def compress_Nil)
next
  case (Cons t ts)
  have "length (compress (expand t @ expand_all ts))
          \<le> length (compress (expand t)) + length (compress (expand_all ts))"
    by (rule length_compress_append)
  then show ?case using Cons length_compress_expand[of t] by (simp add: expand_all_def)
qed

section \<open>Properties of the channel name normalizer\<close>

lemma py_replace_Nil: "old \<noteq> [] \<Longrightarrow> py_replace [] old new = []"
  by (subst py_replace.simps) simp

lemma py_replace_unchanged:
  assumes "old \<noteq> []" "last old \<notin> set t"
  shows "py_replace t old new = t"
  using assms
proof (induction t)
  case Nil then show ?case by (simp add: py_replace_Nil)
next
  case (Cons c t)
  have "take (length old) (c # t) \<noteq> old"
  proof
    assume "take (length old) (c # t) = old"
    then have "set old \<subseteq> set (c # t)" by (metis set_take_subset)
    then have "last old \<in> set (c # t)" using last_in_set[of old] Cons.prems(1) by blast
    then show False using Cons.prems(2) by blast
  qed
  then show ?case using Cons by (subst py_replace.simps) simp
qed

lemma py_replace_suffix:
  assumes "old \<noteq> []" "last old \<notin> set t"
  shows "py_replace (p @ t) old new = py_replace p old new @ t"
  using assms
proof (induction p old new rule: py_replace.induct)
  case (1 s old new)
  show ?case
  proof (cases "s = []")
    case True
    then show ?thesis using py_replace_unchanged[OF 1(3,4)] 1(3) by (simp add: py_replace_Nil)
  next
    case False
    show ?thesis
    proof (cases "take (length old) (s @ t) = old")
      case True
      have "length old \<le> length s"
      proof (rule ccontr)
        assume "\<not> length old \<le> length s"
        then have lt: "length s < length old" by simp
        have "length (take (length old) (s @ t)) = length old" using True by simp
        then have le: "length old \<le> length (s @ t)" by simp
        have "last old = old ! (length old - 1)" using 1(3) by (rule last_conv_nth)
        also have "\<dots> = take (length old) (s @ t) ! (length old - 1)" using True by simp
        also have "\<dots> = (s @ t) ! (length old - 1)"
          by (rule nth_take) (use 1(3) in simp)
        also have "\<dots> = t ! (length old - 1 - length s)"
        proof -
          have "\<not> length old - 1 < length s" using lt by simp
          then show ?thesis by (simp only: nth_append if_False)
        qed
        finally have "last old = t ! (length old - 1 - length s)" .
        moreover have "length old - 1 - length s < length t" using lt le by simp
        ultimately have "last old \<in> set t" by simp
        then show False using 1(4) by simp
      qed
      then have tk: "take (length old) s = old" and dr: "drop (length old) (s @ t) = drop (length old) s @ t"
        using True by simp_all
      have "py_replace (s @ t) old new = new @ py_replace (drop (length old) s @ t) old new"
        using True 1(3) False dr by (subst py_replace.simps) simp
      also have "\<dots> = new @ py_replace (drop (length old) s) old new @ t"
        using 1(1)[OF 1(3) False tk 1(3,4)] by simp
      also have "\<dots> = py_replace s old new @ t"
        using tk 1(3) False by (subst (2) py_replace.simps) simp
      finally show ?thesis .
    next
      case F2: False
      have ntk: "take (length old) s \<noteq> old"
      proof
        assume a: "take (length old) s = old"
        then have "length (take (length old) s) = length old" by simp
        then have "length old \<le> length s" by simp
        then show False using F2 a by simp
      qed
      have "py_replace (s @ t) old new = hd s # py_replace (tl s @ t) old new"
        using F2 1(3) False by (subst py_replace.simps) simp
      also have "\<dots> = hd s # py_replace (tl s) old new @ t"
        using 1(2)[OF 1(3) False ntk 1(3,4)] by simp
      also have "\<dots> = py_replace s old new @ t"
        using ntk 1(3) False by (subst (2) py_replace.simps) simp
      finally show ?thesis .
    qed
  qed
qed

lemma py_replace_last:
  assumes "old \<noteq> []" "new \<noteq> []" "p \<noteq> []"
  shows "py_replace p old new \<noteq> [] \<and> (last (py_replace p old new) = last p \<or> last (py_replace p old new) = last new)"
  using assms
proof (induction p old new rule: py_replace.induct)
  case (1 s old new)
  show ?case
  proof (cases "take (length old) s = old")
    case True
    have eq: "py_replace s old new = new @ py_replace (drop (length old) s) old new"
      using True 1(3,5) by (subst py_replace.simps) simp
    show ?thesis
    proof (cases "drop (length old) s = []")
      case T2: True
      then show ?thesis using eq 1(3,4) by (simp add: py_replace_Nil)
    next
      case F2: False
      have "last (drop (length old) s) = last s" using F2 by simp
      then show ?thesis using eq 1(1)[OF 1(3,5) True 1(3,4) F2] by auto
    qed
  next
    case False
    have eq: "py_replace s old new = hd s # py_replace (tl s) old new"
      using False 1(3,5) by (subst py_replace.simps) simp
    show ?thesis
    proof (cases "tl s = []")
      case True
      then have "py_replace s old new = [hd s]" and "last s = hd s"
        using eq 1(3,5) by (cases s; simp add: py_replace_Nil)+
      then show ?thesis by simp
    next
      case F2: False
      have "last (tl s) = last s" using F2 1(5) by (cases s) auto
      then show ?thesis using eq 1(2)[OF 1(3,5) False 1(3,4) F2] by auto
    qed
  qed
qed

lemma is_space_not_A_Z: "is_space c \<Longrightarrow> \<not> is_A_Z c"
  by (auto simp: is_space_def is_A_Z_def Let_def)

lemma is_space_not_12: "is_space c \<Longrightarrow> c \<noteq> CHR ''1'' \<and> c \<noteq> CHR ''2''"
  by (auto simp: is_space_def Let_def)

lemma dropWhile_keeps_tail:
  assumes "\<not> P x"
  shows "\<exists>q. dropWhile P (a @ x # u) = q @ x # u"
  using assms by (induction a) auto

lemma match_space_upper_tail:
  assumes "is_space sp" "u \<noteq> []" "\<forall>c \<in> set u. is_A_Z c"
  shows "match_space_upper (sp # u) = Some (sp # u)"
proof -
  have tw: "takeWhile is_A_Z u = u" "dropWhile is_A_Z u = []" using assms(3) by simp_all
  show ?thesis using assms(1,2) by (simp add: Let_def tw)
qed

lemma match_space_upper_early:
  assumes "is_space sp" "u \<noteq> []" "x \<noteq> []"
  shows "match_space_upper (x @ sp # u) = None"
proof (cases x)
  case Nil then show ?thesis using assms by simp
next
  case (Cons c r)
  obtain q where q: "dropWhile is_A_Z (r @ sp # u) = q @ sp # u"
    using dropWhile_keeps_tail[of is_A_Z sp r u] is_space_not_A_Z[OF assms(1)] by blast
  have "q @ sp # u \<noteq> []" by simp
  moreover have "q @ sp # u \<noteq> [CHR 0x0A]" using assms(2) by (cases q; cases u) auto
  ultimately show ?thesis using Cons q by (simp add: Let_def)
qed

lemma match_tail_code_early:
  assumes "is_space sp" "u \<noteq> []" "length x \<ge> 2"
  shows "match_tail_code (x @ sp # u) = None"
proof -
  obtain c r where x: "x = c # r" and r: "r \<noteq> []" using assms(3) by (cases x; cases "tl x") auto
  have "match_space_upper (r @ sp # u) = None" using match_space_upper_early[OF assms(1,2) r] .
  moreover have "match_space_upper ((c # r) @ sp # u) = None"
    using match_space_upper_early[OF assms(1,2), of "c # r"] by simp
  ultimately show ?thesis using x by simp
qed

lemma re_search_plain_tail:
  assumes "is_space sp" "u \<noteq> []" "\<forall>c \<in> set u. is_A_Z c"
    and "p = [] \<or> \<not> is_12 (last p)"
  shows "re_search_tail_code (p @ sp # u) = Some (sp # u)"
  using assms(4)
proof (induction p)
  case Nil
  have "match_tail_code (sp # u) = Some (sp # u)"
    using match_space_upper_tail[OF assms(1-3)] is_space_not_12[OF assms(1)] by simp
  then show ?case by simp
next
  case (Cons c p)
  have none: "match_tail_code (c # p @ sp # u) = None"
  proof (cases "p = []")
    case True
    then have "\<not> is_12 c" using Cons.prems by simp
    moreover have "match_space_upper ([c] @ sp # u) = None"
      by (rule match_space_upper_early[OF assms(1,2)]) simp
    ultimately show ?thesis using True by (simp add: is_12_def)
  next
    case False
    then have "length (c # p) \<ge> 2" by (cases p) auto
    then show ?thesis using match_tail_code_early[OF assms(1,2), of "c # p"] by simp
  qed
  have "p = [] \<or> \<not> is_12 (last p)" using Cons.prems by (cases "p = []") auto
  then show ?case using Cons.IH none by simp
qed

lemma re_search_digit_tail:
  assumes "is_space sp" "u \<noteq> []" "\<forall>c \<in> set u. is_A_Z c" "is_12 d"
  shows "re_search_tail_code (p @ d # sp # u) = Some (d # sp # u)"
proof (induction p)
  case Nil
  show ?case using match_space_upper_tail[OF assms(1-3)] assms(4) by (simp add: is_12_def)
next
  case (Cons c p)
  have "length (c # p @ [d]) \<ge> 2" by simp
  then have "match_tail_code ((c # p @ [d]) @ sp # u) = None"
    by (rule match_tail_code_early[OF assms(1,2)])
  then show ?case using Cons.IH by simp
qed

lemma replace_loop_keeps_tail:
  assumes "\<forall>r \<in> set rs. safe_pair t r"
  shows "\<exists>p'. replace_loop (p @ t) L rs = p' @ t \<and>
           ((p = [] \<or> \<not> is_12 (last p)) \<longrightarrow> (p' = [] \<or> \<not> is_12 (last p')))"
  using assms
proof (induction rs arbitrary: p rule: rev_induct)
  case Nil
  then show ?case by (subst replace_loop.simps) auto
next
  case (snoc r rs)
  show ?case
  proof (cases "int (length (p @ t)) > L")
    case False
    then show ?thesis by (subst replace_loop.simps) auto
  next
    case True
    have sp: "safe_pair t r" using snoc.prems by simp
    let ?q = "py_replace p (fst r) (snd r)"
    have rep: "py_replace (p @ t) (fst r) (snd r) = ?q @ t"
      using sp by (intro py_replace_suffix) (auto simp: safe_pair_def)
    have step: "replace_loop (p @ t) L (rs @ [r]) = replace_loop (?q @ t) L rs"
      using True rep by (subst replace_loop.simps) simp
    have keep: "(p = [] \<or> \<not> is_12 (last p)) \<longrightarrow> (?q = [] \<or> \<not> is_12 (last ?q))"
    proof (cases "p = []")
      case True then show ?thesis using sp by (simp add: py_replace_Nil safe_pair_def)
    next
      case False
      then show ?thesis
        using py_replace_last[of "fst r" "snd r" p] sp by (auto simp: safe_pair_def)
    qed
    obtain p' where "replace_loop (?q @ t) L rs = p' @ t"
      "(?q = [] \<or> \<not> is_12 (last ?q)) \<longrightarrow> (p' = [] \<or> \<not> is_12 (last p'))"
      using snoc.IH[of ?q] snoc.prems by auto
    then show ?thesis using step keep by auto
  qed
qed

lemma replacements_safe:
  assumes "\<forall>c \<in> set t. is_A_Z c \<or> is_12 c \<or> c = CHR '' ''"
  shows "\<forall>r \<in> set Talkgroup_Channel_name_replacements. safe_pair t r"
proof -
  have low: "\<And>c. c \<in> set ''taionhe'' \<Longrightarrow> c \<notin> set t"
    using assms by (auto simp: is_A_Z_def is_12_def Let_def)
  show ?thesis
    unfolding Talkgroup_Channel_name_replacements_def safe_pair_def
    using low by (simp add: is_12_def)
qed

lemma channel_name_with_tail:
  assumes tail: "re_search_tail_code (p' @ t) = Some t"
    and loop: "replace_loop name L Talkgroup_Channel_name_replacements = p' @ t"
    and room: "int (length t) + 2 \<le> L"
    and ne: "t \<noteq> []"
  shows "suffix t (channel_name name L)"
proof (cases "int (length (p' @ t)) > L")
  case False
  then have "channel_name name L = p' @ t"
    using tail loop room by (simp add: channel_name_def Let_def py_slice_to_def)
  then show ?thesis by (simp add: suffix_def)
next
  case True
  let ?s = "p' @ t"
  let ?k = "nat (L - int (length t))"
  have k: "?k \<le> length p'" using True by simp
  have a: "py_slice_to ?s (- (int (length ?s) - L) - int (length t)) = take ?k p'"
    using True room k by (simp add: py_slice_to_def)
  have b: "py_slice_from ?s (- int (length t)) = t"
    using ne by (simp add: py_slice_from_def)
  have c: "py_slice_to (take ?k p' @ t) L = take ?k p' @ t"
    using room k by (simp add: py_slice_to_def)
  have "channel_name name L = take ?k p' @ t"
    using tail loop room True a b c by (simp add: channel_name_def Let_def)
  then show ?thesis by (simp add: suffix_def)
qed

section \<open>Properties of the template parser\<close>

lemma find_sub_sound:
  "find_sub sub s = Some (b, a) \<Longrightarrow>
     s = b @ sub @ a \<and> (\<forall>b' a'. s = b' @ sub @ a' \<longrightarrow> length b \<le> length b')"
proof (induction s arbitrary: b)
  case Nil
  then show ?case by (auto split: if_splits)
next
  case (Cons c cs)
  show ?case
  proof (cases "take (length sub) (c # cs) = sub")
    case True
    then have "b = []" "a = drop (length sub) (c # cs)" using Cons.prems by auto
    moreover have "c # cs = sub @ drop (length sub) (c # cs)"
      using True by (metis append_take_drop_id)
    ultimately show ?thesis by simp
  next
    case False
    then obtain b1 where f: "find_sub sub cs = Some (b1, a)" and b: "b = c # b1"
      using Cons.prems by (auto split: option.splits)
    have ih: "cs = b1 @ sub @ a" "\<forall>b' a'. cs = b' @ sub @ a' \<longrightarrow> length b1 \<le> length b'"
      using Cons.IH[OF f] by auto
    have "length b \<le> length b'" if "c # cs = b' @ sub @ a'" for b' a'
    proof (cases b')
      case Nil
      then have "take (length sub) (c # cs) = sub" using that by simp
      then show ?thesis using False by simp
    next
      case (Cons x b2)
      then have "cs = b2 @ sub @ a'" using that by simp
      then have "length b1 \<le> length b2" using ih(2) by blast
      then show ?thesis using b Cons by simp
    qed
    then show ?thesis using ih(1) b by simp
  qed
qed

lemma find_sub_first:
  assumes "s = b @ sub @ a" "\<forall>b' a'. s = b' @ sub @ a' \<longrightarrow> length b \<le> length b'"
  shows "find_sub sub s = Some (b, a)"
  using assms
proof (induction s arbitrary: b)
  case Nil
  then show ?case by simp
next
  case (Cons c cs)
  show ?case
  proof (cases "take (length sub) (c # cs) = sub")
    case True
    then have "c # cs = [] @ sub @ drop (length sub) (c # cs)"
      by (metis append_Nil append_take_drop_id)
    then have "length b \<le> length ([]::string)" using Cons.prems(2) by blast
    then have "b = []" by simp
    then have "a = drop (length sub) (c # cs)" using Cons.prems(1) by simp
    then show ?thesis using True \<open>b = []\<close> by simp
  next
    case False
    have "b \<noteq> []"
    proof
      assume "b = []"
      then have "take (length sub) (c # cs) = sub" using Cons.prems(1) by simp
      then show False using False by simp
    qed
    then obtain b1 where b: "b = c # b1" and cs: "cs = b1 @ sub @ a"
      using Cons.prems(1) by (cases b) auto
    have "\<forall>b' a'. cs = b' @ sub @ a' \<longrightarrow> length b1 \<le> length b'"
    proof (intro allI impI)
      fix b' a' assume "cs = b' @ sub @ a'"
      then have "c # cs = (c # b') @ sub @ a'" by simp
      then have "length b \<le> length (c # b')" using Cons.prems(2) by blast
      then show "length b1 \<le> length b'" using b by simp
    qed
    then have "find_sub sub cs = Some (b1, a)" using Cons.IH[OF cs] by simp
    then show ?thesis using False b by simp
  qed
qed

lemma Radio_of_value_value: "Radio_of_value (Radio_value r) = Inr r"
  by (cases r) (simp_all add: Radio_of_value_def Radio_members_def)

lemma Radio_of_value_Inr: "Radio_of_value v = Inr r \<Longrightarrow> Radio_value r = v"
  by (auto simp: Radio_of_value_def split: option.splits dest: find_Some_iff[THEN iffD1])

lemma Radio_of_value_unknown: "\<forall>r. Radio_value r \<noteq> v \<Longrightarrow> Radio_of_value v = Inl (ValueError v)"
  by (auto simp: Radio_of_value_def find_None_iff split: option.splits)

lemma read_lines_seek:
  assumes "radio t = None" "\<forall>l \<in> set pre. \<not> py_in ''Radio: '' l"
  shows "read_lines t (pre @ rest) = read_lines (t\<lparr>header := header t @ pre\<rparr>) rest"
  using assms
proof (induction pre arbitrary: t)
  case Nil then show ?case by simp
next
  case (Cons l pre)
  have "\<not> py_in ''Radio: '' l" using Cons.prems(2) by simp
  then have "find_sub ''Radio: '' l = None" unfolding py_in_def by blast
  then have "read_lines t ((l # pre) @ rest) = read_lines (t\<lparr>header := header t @ [l]\<rparr>) (pre @ rest)"
    using Cons.prems(1) by (simp add: py_partition_def)
  also have "\<dots> = read_lines (t\<lparr>header := header t @ [l]\<rparr>\<lparr>header := header (t\<lparr>header := header t @ [l]\<rparr>) @ pre\<rparr>) rest"
    using Cons.prems by (intro Cons.IH) simp_all
  finally show ?case by simp
qed

lemma read_lines_found:
  assumes "radio t \<noteq> None"
  shows "read_lines t rest =
     Inr (t\<lparr>header := header t @ filter is_metadata rest,
            footer := footer t @ filter (\<lambda>l. \<not> is_metadata l) rest\<rparr>)"
  using assms by (induction rest arbitrary: t) auto

lemma read_lines_marker:
  assumes "radio t = None" "find_sub ''Radio: '' rline = Some (b, v)"
  shows "read_lines t (rline # rest) =
     (case Radio_of_value v of
        Inl e \<Rightarrow> Inl e
      | Inr r \<Rightarrow> read_lines (t\<lparr>header := header t @ [rline], radio := Some r\<rparr>) rest)"
  using assms by (simp add: py_partition_def split: sum.splits)

lemma read_template_marker:
  assumes "splitlines template = pre @ rline # rest"
    and "\<forall>l \<in> set pre. \<not> py_in ''Radio: '' l"
    and "find_sub ''Radio: '' rline = Some (b, v)"
  shows "read_template template =
     (case Radio_of_value v of
        Inl e \<Rightarrow> Inl e
      | Inr r \<Rightarrow> Inr \<lparr>header = pre @ [rline] @ filter is_metadata rest @ [''''],
                       footer = filter (\<lambda>l. \<not> is_metadata l) rest,
                       radio = Some r\<rparr>)"
proof -
  let ?t0 = "\<lparr>header = [], footer = [], radio = None\<rparr>"
  have "read_lines ?t0 (pre @ rline # rest) = read_lines (?t0\<lparr>header := header ?t0 @ pre\<rparr>) (rline # rest)"
    using assms(2) by (intro read_lines_seek) simp_all
  also have "\<dots> = (case Radio_of_value v of
        Inl e \<Rightarrow> Inl e
      | Inr r \<Rightarrow> read_lines \<lparr>header = pre @ [rline], footer = [], radio = Some r\<rparr> rest)"
    by (subst read_lines_marker[OF _ assms(3)]) (simp_all split: sum.splits)
  finally show ?thesis
    using assms(1) by (simp add: read_template_def read_lines_found split: sum.splits)
qed

lemma read_template_no_marker:
  assumes "\<forall>l \<in> set (splitlines template). \<not> py_in ''Radio: '' l"
  shows "read_template template = Inl (TemplateError ''template should specify a radio type'')"
proof -
  let ?t0 = "\<lparr>header = [], footer = [], radio = None\<rparr>"
  have "read_lines ?t0 (splitlines template @ []) = read_lines (?t0\<lparr>header := header ?t0 @ splitlines template\<rparr>) []"
    using assms by (intro read_lines_seek) simp_all
  then show ?thesis by (simp add: read_template_def)
qed

lemma py_partition_found:
  assumes "py_partition rline ''Radio: '' = (before, ''Radio: '', radio_type)"
  shows "find_sub ''Radio: '' rline = Some (before, radio_type)"
  using assms by (auto simp: py_partition_def split: option.splits)

lemma Radio_of_value_iff: "Radio_of_value v = Inr r \<longleftrightarrow> v = Radio_value r"
  using Radio_of_value_value Radio_of_value_Inr by auto

lemma Dmrconfig_Codeplug_init_template_error:
  "read_template text = Inl e \<Longrightarrow> Dmrconfig_Codeplug_init table (Some text) radio_arg = Inl e"
  by (simp add: Dmrconfig_Codeplug_init_def)

section \<open>Range compressor: round trip and minimality\<close>

text \<open>
  Claim C2. Expanding the tokens that \<open>items_to_range_tuples\<close> returns (a bare index
  to itself, a pair to every value from its low to its high end) and concatenating the
  expansions in token order gives back the sequence of resolved indices of the selected
  items, in the same order. The statement holds for every sequence of resolved indices,
  hence for the sequences of distinct integers with a run of consecutive values that the
  claim names: any integer sequence is the index sequence of some selection.
\<close>

theorem range_roundtrip:
  assumes "\<forall>item \<in> set selected_items. items_by_ix (key item) \<noteq> None"
  shows "\<exists>ranges. items_to_range_tuples items_by_ix selected_items key = Inr ranges \<and>
           expand_all ranges = map (\<lambda>item. the (items_by_ix (key item))) selected_items"
  using map_err_getitem_ok[of selected_items items_by_ix key] assms
  by (simp add: items_to_range_tuples_def expand_compress)

theorem range_roundtrip_witness:
  "list_all (\<lambda>item. items_by_index [10, 20, 30, 40, 50 :: nat] (\<lambda>x. x) 1 item \<noteq> None)
       [10, 20, 30, 50] \<and>
   items_to_range_tuples (items_by_index [10, 20, 30, 40, 50 :: nat] (\<lambda>x. x) 1)
       [10, 20, 30, 50] (\<lambda>x. x) = Inr [Rng 1 3, Ix 5] \<and>
   expand_all [Rng 1 3, Ix 5] = [1, 2, 3, 5]"
  using range_roundtrip[of "[10, 20, 30, 50 :: nat]"
          "items_by_index [10, 20, 30, 40, 50 :: nat] (\<lambda>x. x) 1" "\<lambda>x. x"]
  by (simp add: items_by_index_def items_to_range_tuples_def getitem_def compress_def
        range_step_def expand_all_def upto_rec1)

text \<open>
  Claim C9. Whatever the order of the resolved indices, \<open>items_to_range_tuples\<close>
  returns a tokenization of the index sequence with the smallest number of tokens: any
  token list whose expansion is the same sequence, in the same order, is at least as
  long. Concretely, five items indexed from 1 of which the first three and the fifth
  are selected have the indices 1, 2, 3, 5, which compress to the tokens (1, 3) and 5;
  \<open>format_ranges\<close> renders them as \<open>1-3,5\<close>.
\<close>

theorem compress_minimal_tokens:
  "(items_to_range_tuples items_by_ix selected_items key = Inr ranges \<longrightarrow>
      expand_all ranges = map (\<lambda>item. the (items_by_ix (key item))) selected_items \<and>
      (\<forall>tokens. expand_all tokens = map (\<lambda>item. the (items_by_ix (key item))) selected_items
          \<longrightarrow> length ranges \<le> length tokens)) \<and>
   items_to_range_tuples (items_by_index [''a'', ''b'', ''c'', ''d'', ''e''] (\<lambda>x. x) 1)
       [''a'', ''b'', ''c'', ''e''] (\<lambda>x. x) = Inr [Rng 1 3, Ix 5] \<and>
   format_ranges [Rng 1 3, Ix 5] = ''1-3,5''"
proof (intro conjI impI)
  assume r: "items_to_range_tuples items_by_ix selected_items key = Inr ranges"
  then obtain selected where
    s: "map_err (\<lambda>item. getitem items_by_ix (key item)) selected_items = Inr selected"
    and c: "ranges = compress selected"
    by (auto simp: items_to_range_tuples_def bind_err_eq_Inr)
  have sel: "selected = map (\<lambda>item. the (items_by_ix (key item))) selected_items"
    using s by (rule map_err_getitem_result)
  show "expand_all ranges = map (\<lambda>item. the (items_by_ix (key item))) selected_items"
    using c sel by (simp add: expand_compress)
  show "\<forall>tokens. expand_all tokens = map (\<lambda>item. the (items_by_ix (key item))) selected_items
          \<longrightarrow> length ranges \<le> length tokens"
    using c sel compress_minimal by metis
next
  show "items_to_range_tuples (items_by_index [''a'', ''b'', ''c'', ''d'', ''e''] (\<lambda>x. x) 1)
       [''a'', ''b'', ''c'', ''e''] (\<lambda>x. x) = Inr [Rng 1 3, Ix 5]"
    by (simp add: items_by_index_def items_to_range_tuples_def getitem_def compress_def
          range_step_def)
next
  show "format_ranges [Rng 1 3, Ix 5] = ''1-3,5''"
    by (simp add: format_ranges_def format_range_def str_int_def str_nat.simps digit_char_def)
qed

theorem compress_minimal_tokens_witness:
  "items_to_range_tuples (items_by_index [4, 5, 6, 7, 8 :: nat] (\<lambda>x. x) 1)
       [4, 5, 6, 8] (\<lambda>x. x) = Inr [Rng 1 3, Ix 5] \<and>
   expand_all [Ix 1, Ix 2, Ix 3, Ix 5] = [1, 2, 3, 5] \<and>
   length [Rng 1 3, Ix 5] \<le> length [Ix 1, Ix 2, Ix 3, Ix 5]"
proof -
  let ?d = "items_by_index [4, 5, 6, 7, 8 :: nat] (\<lambda>x. x) 1"
  have r: "items_to_range_tuples ?d [4, 5, 6, 8] (\<lambda>x. x) = Inr [Rng 1 3, Ix 5]"
    by (simp add: items_by_index_def items_to_range_tuples_def getitem_def compress_def
          range_step_def)
  have e: "expand_all [Ix 1, Ix 2, Ix 3, Ix 5] = map (\<lambda>item. the (?d item)) [4, 5, 6, 8]"
    by (simp add: items_by_index_def expand_all_def)
  have "length [Rng 1 3, Ix 5] \<le> length [Ix 1, Ix 2, Ix 3, Ix 5]"
    using compress_minimal_tokens[of ?d "[4, 5, 6, 8]" "\<lambda>x. x" "[Rng 1 3, Ix 5]"] r e
    by blast
  then show ?thesis using r by (simp add: expand_all_def)
qed

section \<open>Channel name normalizer: tail and length\<close>

text \<open>
  Claim C5 (as amended). A name that ends in a tail made of a space and one to three
  capitals A-Z, with the digit 1 or 2 in front of the space when the name has one there,
  keeps exactly that tail at the end of the normalized name, for every length limit that
  leaves room for the tail and at least two more characters.
\<close>

theorem tail_preserved:
  assumes "name = p @ d @ CHR '' '' # u"
    and "d = [] \<or> d = ''1'' \<or> d = ''2''"
    and "1 \<le> length u" "length u \<le> 3" "\<forall>c \<in> set u. is_A_Z c"
    and "d = [] \<longrightarrow> p = [] \<or> (last p \<noteq> CHR ''1'' \<and> last p \<noteq> CHR ''2'')"
    and "int (length (d @ CHR '' '' # u)) + 2 \<le> max_length"
  shows "suffix (d @ CHR '' '' # u) (channel_name name max_length)"
proof -
  let ?t = "d @ CHR '' '' # u"
  have sp: "is_space (CHR '' '')" by (simp add: is_space_def)
  have u: "u \<noteq> []" using assms(3) by auto
  have chars: "\<forall>c \<in> set ?t. is_A_Z c \<or> is_12 c \<or> c = CHR '' ''"
    using assms(2,5) by (auto simp: is_12_def)
  obtain p' where loop: "replace_loop (p @ ?t) max_length Talkgroup_Channel_name_replacements = p' @ ?t"
    and keep: "(p = [] \<or> \<not> is_12 (last p)) \<longrightarrow> (p' = [] \<or> \<not> is_12 (last p'))"
    using replace_loop_keeps_tail[OF replacements_safe[OF chars], of p max_length] by blast
  have "re_search_tail_code (p' @ ?t) = Some ?t"
  proof (cases "d = []")
    case True
    then have "p' = [] \<or> \<not> is_12 (last p')" using assms(6) keep by (auto simp: is_12_def)
    then show ?thesis using re_search_plain_tail[OF sp u assms(5)] True by simp
  next
    case False
    then obtain c where d: "d = [c]" and c: "is_12 c" using assms(2) by (auto simp: is_12_def)
    show ?thesis using re_search_digit_tail[OF sp u assms(5) c, of p'] d by simp
  qed
  then show ?thesis
    using channel_name_with_tail[OF _ _ assms(7), of p' name] loop assms(1) by simp
qed

theorem tail_preserved_witness:
  "''Oregon North America Audio Test 2 PNW'' = ''Oregon North America Audio Test '' @ ''2'' @ CHR '' '' # ''PNW'' \<and>
   list_all is_A_Z ''PNW'' \<and>
   int (length (''2'' @ CHR '' '' # ''PNW'')) + 2 \<le> 7 \<and>
   suffix ''2 PNW'' (channel_name ''Oregon North America Audio Test 2 PNW'' 7)"
  using tail_preserved[of "''Oregon North America Audio Test 2 PNW''" "''Oregon North America Audio Test ''"
       "''2''" "''PNW''" 7]
  by (simp add: is_A_Z_def)

text \<open>
  The claim as stated fails on two counts. A limit that leaves room for the tail and one
  more character is not enough: \<open>ABCDEF XY\<close> with limit 4 loses its tail \<open> XY\<close>. And
  a digit other than 1 or 2 is not part of the tail: \<open>ABCDEFGHIJ9 AB\<close> with limit 8
  keeps \<open> AB\<close> but not \<open>9 AB\<close>.
\<close>

theorem tail_lost_counterexample:
  "\<not> suffix '' XY'' (channel_name ''ABCDEF XY'' 4) \<and>
   \<not> suffix ''9 AB'' (channel_name ''ABCDEFGHIJ9 AB'' 8)"
  by (simp add: channel_name_def replace_loop.simps py_replace.simps Talkgroup_Channel_name_replacements_def
     is_space_def is_A_Z_def py_slice_to_def py_slice_from_def Let_def suffix_def)

text \<open>
  Claim C6. For every string and every length limit of at least 1, \<open>channel_name\<close>
  returns a string no longer than the limit. It has no failing path: the replacement
  loop runs at most once per dictionary entry, and the last step truncates whatever the
  earlier steps left.
\<close>

theorem name_limit_invariant:
  "1 \<le> max_length \<Longrightarrow> int (length (channel_name s max_length)) \<le> max_length"
  by (simp add: channel_name_def Let_def py_slice_to_def)

theorem name_limit_invariant_witness:
  "(1::int) \<le> 6 \<and> int (length (channel_name ''Washington Worldwide 1 WW'' 6)) \<le> 6"
  using name_limit_invariant[of 6 "''Washington Worldwide 1 WW''"] by simp

section \<open>Template parsing\<close>

text \<open>
  Claim C3 (as amended). Once the radio-identification line has been found, every later
  line that matches neither metadata marker is appended verbatim to the footer, in the
  order of the template, so the first such line is the first footer line; and every
  later line that matches a metadata marker is appended to the header, wherever it
  stands, also after footer lines. The header ends with one empty line.
\<close>

theorem lines_after_radio:
  assumes "splitlines template = pre @ rline # rest"
    and "\<forall>l \<in> set pre. \<not> py_in ''Radio: '' l"
    and "py_partition rline ''Radio: '' = (before, ''Radio: '', radio_type)"
    and "Radio_of_value radio_type = Inr r"
  shows "read_template template =
           Inr \<lparr>header = pre @ [rline] @ filter is_metadata rest @ [''''],
                footer = filter (\<lambda>l. \<not> is_metadata l) rest,
                radio = Some r\<rparr>"
  using read_template_marker[OF assms(1,2) py_partition_found[OF assms(3)]] assms(4)
  by simp

theorem lines_after_radio_witness:
  "splitlines (''# codeplug'' @ NL @ ''Radio: TYT MD-380'' @ NL @ ''CPS Software Version: 1''
       @ NL @ ''ID: 1234'' @ NL @ ''Name: K7WXW'')
     = [''# codeplug''] @ ''Radio: TYT MD-380'' # [''CPS Software Version: 1'', ''ID: 1234'', ''Name: K7WXW''] \<and>
   list_all (\<lambda>l. \<not> py_in ''Radio: '' l) [''# codeplug''] \<and>
   py_partition ''Radio: TYT MD-380'' ''Radio: '' = ('''', ''Radio: '', ''TYT MD-380'') \<and>
   Radio_of_value ''TYT MD-380'' = Inr MD_380 \<and>
   read_template (''# codeplug'' @ NL @ ''Radio: TYT MD-380'' @ NL @ ''CPS Software Version: 1''
       @ NL @ ''ID: 1234'' @ NL @ ''Name: K7WXW'')
     = Inr \<lparr>header = [''# codeplug'', ''Radio: TYT MD-380'', ''CPS Software Version: 1'', ''''],
            footer = [''ID: 1234'', ''Name: K7WXW''],
            radio = Some MD_380\<rparr>"
proof -
  let ?text = "''# codeplug'' @ NL @ ''Radio: TYT MD-380'' @ NL @ ''CPS Software Version: 1''
       @ NL @ ''ID: 1234'' @ NL @ ''Name: K7WXW''"
  have s: "splitlines ?text
     = [''# codeplug''] @ ''Radio: TYT MD-380'' # [''CPS Software Version: 1'', ''ID: 1234'', ''Name: K7WXW'']"
    by (simp add: splitlines_def NL_def is_linebreak_def)
  have p: "\<forall>l \<in> set [''# codeplug'']. \<not> py_in ''Radio: '' l"
    by (simp add: py_in_def)
  have q: "py_partition ''Radio: TYT MD-380'' ''Radio: '' = ('''', ''Radio: '', ''TYT MD-380'')"
    by (simp add: py_partition_def)
  have v: "Radio_of_value ''TYT MD-380'' = Inr MD_380"
    by (simp add: Radio_of_value_def Radio_members_def)
  have m: "filter is_metadata [''CPS Software Version: 1'', ''ID: 1234'', ''Name: K7WXW'']
             = [''CPS Software Version: 1'']"
          "filter (\<lambda>l. \<not> is_metadata l) [''CPS Software Version: 1'', ''ID: 1234'', ''Name: K7WXW'']
             = [''ID: 1234'', ''Name: K7WXW'']"
    by code_simp+
  show ?thesis
    using lines_after_radio[OF s p q v] s p q v m by simp
qed

text \<open>
  The claim as stated fails: in the template below the line \<open>Last Programmed Date: 2021\<close>
  comes after the first footer line \<open>ID: 1234\<close>, and it is appended to the header, not
  to the footer.
\<close>

theorem metadata_after_footer_counterexample:
  "read_template (''Radio: TYT MD-380'' @ NL @ ''ID: 1234'' @ NL @ ''Last Programmed Date: 2021'')
     = Inr \<lparr>header = [''Radio: TYT MD-380'', ''Last Programmed Date: 2021'', ''''],
            footer = [''ID: 1234''],
            radio = Some MD_380\<rparr>"
  by code_simp

text \<open>
  Claim C7. A template whose radio line declares a name that is not in the radio
  enumeration must fail with the template error, as the docstring of \<open>read_template\<close>
  says (\<open>raise TemplateError if template doesn't contain a valid "Radio: X" line\<close>) and
  as the path for a template without any radio line does. The code does not: the
  lookup \<open>Radio(radio_type)\<close> raises the bare \<open>ValueError\<close> of the enumeration, which
  is not a \<open>TemplateError\<close>, and nothing turns it into one. The theorem evaluates
  \<open>read_template\<close> on the template \<open>Radio: Foo\<close>, and on a template without a radio
  line for comparison.
\<close>

theorem unknown_radio_raises_value_error:
  "read_template ''Radio: Foo'' = Inl (ValueError ''Foo'') \<and>
   read_template ''# codeplug'' = Inl (TemplateError ''template should specify a radio type'')"
  by (simp add: read_template_def splitlines_def is_linebreak_def py_partition_def
        Radio_of_value_def Radio_members_def)

text \<open>
  Claim C10. While no radio has been found, a line is taken as the radio-identification
  line whenever it contains \<open>Radio: \<close>, wherever in the line; what follows the first
  occurrence of \<open>Radio: \<close> is the radio name, compared as it is with the values of the
  enumeration: with the value of a radio the template is read and has that radio, with
  anything else parsing fails. The line \<open>My Radio: TYT MD-380\<close> selects the TYT MD-380.
\<close>

theorem radio_marker_anywhere:
  "(splitlines template = pre @ rline # rest \<and>
    (\<forall>l \<in> set pre. \<not> py_in ''Radio: '' l) \<and>
    rline = before @ ''Radio: '' @ radio_type \<and>
    (\<forall>b a. rline = b @ ''Radio: '' @ a \<longrightarrow> length before \<le> length b) \<longrightarrow>
      (\<forall>r. radio_type = Radio_value r \<longrightarrow>
           read_template template =
             Inr \<lparr>header = pre @ [rline] @ filter is_metadata rest @ [''''],
                  footer = filter (\<lambda>l. \<not> is_metadata l) rest,
                  radio = Some r\<rparr>) \<and>
      ((\<forall>r. radio_type \<noteq> Radio_value r) \<longrightarrow> isl (read_template template))) \<and>
   read_template ''My Radio: TYT MD-380''
     = Inr \<lparr>header = [''My Radio: TYT MD-380'', ''''], footer = [], radio = Some MD_380\<rparr> \<and>
   isl (read_template ''Radio: tyt md-380'')"
proof (intro conjI impI allI)
  fix r
  assume a: "splitlines template = pre @ rline # rest \<and>
    (\<forall>l \<in> set pre. \<not> py_in ''Radio: '' l) \<and>
    rline = before @ ''Radio: '' @ radio_type \<and>
    (\<forall>b a. rline = b @ ''Radio: '' @ a \<longrightarrow> length before \<le> length b)"
    and k: "radio_type = Radio_value r"
  have "find_sub ''Radio: '' rline = Some (before, radio_type)"
    using a by (intro find_sub_first) simp_all
  then show "read_template template =
             Inr \<lparr>header = pre @ [rline] @ filter is_metadata rest @ [''''],
                  footer = filter (\<lambda>l. \<not> is_metadata l) rest,
                  radio = Some r\<rparr>"
    using read_template_marker[of template pre rline rest before radio_type] a k
    by (simp add: Radio_of_value_value)
next
  assume a: "splitlines template = pre @ rline # rest \<and>
    (\<forall>l \<in> set pre. \<not> py_in ''Radio: '' l) \<and>
    rline = before @ ''Radio: '' @ radio_type \<and>
    (\<forall>b a. rline = b @ ''Radio: '' @ a \<longrightarrow> length before \<le> length b)"
    and u: "\<forall>r. radio_type \<noteq> Radio_value r"
  have f: "find_sub ''Radio: '' rline = Some (before, radio_type)"
    using a by (intro find_sub_first) simp_all
  have "Radio_of_value radio_type = Inl (ValueError radio_type)"
    using u by (intro Radio_of_value_unknown) metis
  then show "isl (read_template template)"
    using read_template_marker[of template pre rline rest before radio_type] a f by simp
next
  show "read_template ''My Radio: TYT MD-380''
     = Inr \<lparr>header = [''My Radio: TYT MD-380'', ''''], footer = [], radio = Some MD_380\<rparr>"
    by (simp add: read_template_def splitlines_def is_linebreak_def py_partition_def
          Radio_of_value_def Radio_members_def)
next
  show "isl (read_template ''Radio: tyt md-380'')"
    by (simp add: read_template_def splitlines_def is_linebreak_def py_partition_def
          Radio_of_value_def Radio_members_def)
qed

theorem radio_marker_anywhere_witness:
  "splitlines (''# codeplug'' @ NL @ ''Target Radio: BTECH DMR-6x2'' @ NL @ ''ID: 1234'')
     = [''# codeplug''] @ ''Target Radio: BTECH DMR-6x2'' # [''ID: 1234''] \<and>
   list_all (\<lambda>l. \<not> py_in ''Radio: '' l) [''# codeplug''] \<and>
   ''Target Radio: BTECH DMR-6x2'' = ''Target '' @ ''Radio: '' @ ''BTECH DMR-6x2'' \<and>
   read_template (''# codeplug'' @ NL @ ''Target Radio: BTECH DMR-6x2'' @ NL @ ''ID: 1234'')
     = Inr \<lparr>header = [''# codeplug'', ''Target Radio: BTECH DMR-6x2'', ''''],
            footer = [''ID: 1234''],
            radio = Some DMR6X2\<rparr>"
proof -
  let ?text = "''# codeplug'' @ NL @ ''Target Radio: BTECH DMR-6x2'' @ NL @ ''ID: 1234''"
  have s: "splitlines ?text = [''# codeplug''] @ ''Target Radio: BTECH DMR-6x2'' # [''ID: 1234'']"
    by (simp add: splitlines_def NL_def is_linebreak_def)
  have p: "\<forall>l \<in> set [''# codeplug'']. \<not> py_in ''Radio: '' l"
    by (simp add: py_in_def)
  have e: "''Target Radio: BTECH DMR-6x2'' = ''Target '' @ ''Radio: '' @ ''BTECH DMR-6x2''"
    by simp
  have "find_sub ''Radio: '' ''Target Radio: BTECH DMR-6x2'' = Some (''Target '', ''BTECH DMR-6x2'')"
    by simp
  then have f: "\<forall>b a. ''Target Radio: BTECH DMR-6x2'' = b @ ''Radio: '' @ a
                  \<longrightarrow> length ''Target '' \<le> length b"
    using find_sub_sound by blast
  have v: "''BTECH DMR-6x2'' = Radio_value DMR6X2" by simp
  have m: "filter is_metadata [''ID: 1234''] = []"
          "filter (\<lambda>l. \<not> is_metadata l) [''ID: 1234''] = [''ID: 1234'']"
    by code_simp+
  have "read_template ?text =
      Inr \<lparr>header = [''# codeplug''] @ [''Target Radio: BTECH DMR-6x2'']
                      @ filter is_metadata [''ID: 1234''] @ [''''],
           footer = filter (\<lambda>l. \<not> is_metadata l) [''ID: 1234''],
           radio = Some DMR6X2\<rparr>"
    using radio_marker_anywhere[of ?text "[''# codeplug'']" "''Target Radio: BTECH DMR-6x2''"
            "[''ID: 1234'']" "''Target ''" "''BTECH DMR-6x2''", THEN conjunct1] s p e f v
    by blast
  then show ?thesis using s p m by simp
qed

end
